theory Spec2Isabelle
  imports Main "HOL-Library.Sublist"
begin

section \<open>Values, field maps and contexts\<close>

text \<open>
  A Go \<^verbatim>\<open>interface{}\<close> value is either the nil interface or a proper value. Among
  the proper values, those whose type is a func type or a pointer to a func type are kept
  apart (\<open>FuncVal\<close>), because the logging library refuses them as field values.
  \<^verbatim>\<open>logrus.Fields\<close> (and the package's own \<^verbatim>\<open>Fields\<close>) is a
  \<^verbatim>\<open>map[string]interface{}\<close>: a key may be present and hold nil.
  A \<^verbatim>\<open>context.Context\<close> is used by the engine only through
  \<^verbatim>\<open>ctx.Value(key)\<close> with string keys, so a context is its lookup function;
  the lookup answers nil for a key the context does not hold.
\<close>

datatype 'v any = Nil | Val 'v | FuncVal 'v

fun is_func :: "'v any \<Rightarrow> bool" where
  "is_func Nil = False"
| "is_func (Val v) = False"
| "is_func (FuncVal v) = True"

type_synonym 'v Fields = "string \<rightharpoonup> 'v any"

type_synonym 'v Context = "string \<Rightarrow> 'v any"

text \<open>
  A Go \<^verbatim>\<open>error\<close> value: what \<^verbatim>\<open>os.IsNotExist\<close> says about it and the
  text its \<^verbatim>\<open>Error()\<close> method returns.
\<close>

datatype go_error = NotExistError string | OtherError string

fun Error_text :: "go_error \<Rightarrow> string" where
  "Error_text (NotExistError s) = s"
| "Error_text (OtherError s) = s"

fun os_IsNotExist :: "go_error \<Rightarrow> bool" where
  "os_IsNotExist (NotExistError s) = True"
| "os_IsNotExist (OtherError s) = False"

section \<open>Severity names and records\<close>

text \<open>
  Modelled from the spec: the string constants of package \<^verbatim>\<open>loggerenum\<close>, which is
  not among the sources. The spec (section 6) and the comments of
  \<^verbatim>\<open>config.go\<close> give the names \<^verbatim>\<open>debug|info|warning|error|fatal|panic\<close>,
  \<^verbatim>\<open>stdout|stderr|/dev/null\<close> and \<^verbatim>\<open>text|json\<close>.
\<close>

definition DebugLvl :: string where "DebugLvl = ''debug''"
definition InfoLvl :: string where "InfoLvl = ''info''"
definition WarningLvl :: string where "WarningLvl = ''warning''"
definition ErrorLvl :: string where "ErrorLvl = ''error''"
definition FatalLvl :: string where "FatalLvl = ''fatal''"
definition PanicLvl :: string where "PanicLvl = ''panic''"
definition Stdout :: string where "Stdout = ''stdout''"
definition Stderr :: string where "Stderr = ''stderr''"
definition DevNull :: string where "DevNull = ''/dev/null''"
definition TextFormat :: string where "TextFormat = ''text''"

text \<open>
  Modelled from the spec: the record types \<^verbatim>\<open>loggerdto.MsgDto\<close> and
  \<^verbatim>\<open>loggerdto.ErrDto\<close> with their constructors \<^verbatim>\<open>NewMsg\<close> and
  \<^verbatim>\<open>NewErr\<close> and the method \<^verbatim>\<open>CallerFields()\<close>, which are not among the
  sources. A record carries the context, the severity name, the payload, the caller's
  fields and the call-site metadata captured at construction. The constructor reads the
  call site from the run-time stack; here the captured call-site fields are an explicit
  argument, and \<open>CallerFields\<close> returns them.
\<close>

record 'v MsgDto =
  Ctx :: "'v Context"
  Level :: string
  Msg :: string
  Fields :: "'v Fields"
  CallerFields :: "'v Fields"

record 'v ErrDto =
  ECtx :: "'v Context"
  ELevel :: string
  Err :: go_error
  EFields :: "'v Fields"
  ECallerFields :: "'v Fields"

definition NewMsg ::
  "'v Fields \<Rightarrow> 'v Context \<Rightarrow> string \<Rightarrow> string \<Rightarrow> 'v Fields \<Rightarrow> 'v MsgDto" where
  "NewMsg site ctx level msg flds =
     \<lparr>Ctx = ctx, Level = level, Msg = msg, Fields = flds, CallerFields = site\<rparr>"

definition NewErr ::
  "'v Fields \<Rightarrow> 'v Context \<Rightarrow> string \<Rightarrow> go_error \<Rightarrow> 'v Fields \<Rightarrow> 'v ErrDto" where
  "NewErr site ctx level err flds =
     \<lparr>ECtx = ctx, ELevel = level, Err = err, EFields = flds, ECallerFields = site\<rparr>"

section \<open>The writer boundary\<close>

text \<open>
  The logging library is external; these are the two of its functions that the drain
  loops call. \<^verbatim>\<open>Entry.WithFields(fs)\<close> copies the entry's data and then goes through
  the pairs of \<open>fs\<close>: a pair whose value is a func or a pointer to a func is refused
  (the data keep what they had under that key, or nothing), every other pair is stored,
  so that its key replaces an earlier one. \<^verbatim>\<open>Entry.Log(level, text)\<close> hands level,
  text and data to the hooks, the formatter and the sink, and then, when the level is
  \<^verbatim>\<open>PanicLevel\<close>, panics with the entry. A call of \<^verbatim>\<open>Log\<close> is recorded as the
  \<open>Entry\<close> it is made with: the entry is what the engine delivers to the writer. What
  the library does with the entry before it returns or panics (filtering by the
  configured level, formatting, writing to the sink) is not part of the model.
\<close>

datatype logrus_Level =
  PanicLevel | FatalLevel | ErrorLevel | WarnLevel | InfoLevel | DebugLevel | TraceLevel

datatype logrus_Formatter = TextFormatter | JSONFormatter

record 'v Entry =
  entry_level :: logrus_Level
  entry_text :: string
  entry_data :: "'v Fields"

definition WithFields :: "'v Fields \<Rightarrow> 'v Fields \<Rightarrow> 'v Fields" where
  "WithFields data fs =
     (\<lambda>k. case fs k of
            None \<Rightarrow> data k
          | Some v \<Rightarrow> (if is_func v then data k else Some v))"

definition Entry_Log_panics :: "'v Entry \<Rightarrow> bool" where
  "Entry_Log_panics e = (entry_level e = PanicLevel)"

definition getLevel :: "string \<Rightarrow> logrus_Level" where
  "getLevel level =
     (if level = InfoLvl then InfoLevel
      else if level = WarningLvl then WarnLevel
      else if level = ErrorLvl then ErrorLevel
      else if level = FatalLvl then FatalLevel
      else if level = PanicLvl then PanicLevel
      else DebugLevel)"

definition getFormat :: "string \<Rightarrow> logrus_Formatter" where
  "getFormat formatter = (if formatter = TextFormat then TextFormatter else JSONFormatter)"

section \<open>Context extraction and field merge\<close>

text \<open>
  \<^verbatim>\<open>fieldsFromContext\<close>: the loop over the configured keys, with the map built so far
  as accumulator.
\<close>

fun fieldsFromContext_loop :: "string list \<Rightarrow> 'v Context \<Rightarrow> 'v Fields \<Rightarrow> 'v Fields" where
  "fieldsFromContext_loop [] ctx flds = flds"
| "fieldsFromContext_loop (field # rest) ctx flds =
     fieldsFromContext_loop rest ctx
       (if ctx field \<noteq> Nil then flds(field \<mapsto> ctx field) else flds)"

definition fieldsFromContext :: "string list \<Rightarrow> 'v Context \<Rightarrow> 'v Fields" where
  "fieldsFromContext contextExtraFields ctx =
     fieldsFromContext_loop contextExtraFields ctx Map.empty"

text \<open>
  The body of the two drain loops: the entry that \<^verbatim>\<open>handleMessages\<close> and
  \<^verbatim>\<open>handleErrors\<close> log for one record.
\<close>

definition handleMessages_body :: "string list \<Rightarrow> 'v MsgDto \<Rightarrow> 'v Entry" where
  "handleMessages_body contextExtraFields msg =
     \<lparr>entry_level = getLevel (Level msg),
      entry_text = Msg msg,
      entry_data =
        WithFields
          (WithFields (WithFields Map.empty (Fields msg))
             (fieldsFromContext contextExtraFields (Ctx msg)))
          (CallerFields msg)\<rparr>"

definition handleErrors_body :: "string list \<Rightarrow> 'v ErrDto \<Rightarrow> 'v Entry" where
  "handleErrors_body contextExtraFields err =
     \<lparr>entry_level = getLevel (ELevel err),
      entry_text = Error_text (Err err),
      entry_data =
        WithFields
          (WithFields (WithFields Map.empty (EFields err))
             (fieldsFromContext contextExtraFields (ECtx err)))
          (ECallerFields err)\<rparr>"

section \<open>Paths\<close>

text \<open>
  The functions of Go's \<^verbatim>\<open>strings\<close> and \<^verbatim>\<open>path/filepath\<close> packages that
  \<^verbatim>\<open>getOutput\<close> calls, on a Unix system (separator \<^verbatim>\<open>/\<close>, no volume names).
  \<^verbatim>\<open>strings.Contains(s, substr)\<close> reports whether \<open>substr\<close> occurs within \<open>s\<close>.
  \<^verbatim>\<open>filepath.Clean\<close> works through the elements of the path between separators: it
  drops empty elements and \<^verbatim>\<open>.\<close>, lets \<^verbatim>\<open>..\<close> remove the element before it, drops
  a \<^verbatim>\<open>..\<close> that would climb above the root and keeps one at the start of a relative
  path. \<open>Clean_elem\<close> is one round of its loop, with the elements written so far as a
  stack.
\<close>

definition strings_Contains :: "string \<Rightarrow> string \<Rightarrow> bool" where
  "strings_Contains s substr = sublist substr s"

fun strings_Join :: "string list \<Rightarrow> string \<Rightarrow> string" where
  "strings_Join [] sep = []"
| "strings_Join [e] sep = e"
| "strings_Join (e # es) sep = e @ sep @ strings_Join es sep"

fun splitSep :: "string \<Rightarrow> string list" where
  "splitSep [] = [[]]"
| "splitSep (c # cs) =
     (if c = CHR ''/'' then [] # splitSep cs
      else (case splitSep cs of [] \<Rightarrow> [[c]] | e # es \<Rightarrow> (c # e) # es))"

fun Clean_elem :: "bool \<Rightarrow> string list \<Rightarrow> string \<Rightarrow> string list" where
  "Clean_elem rooted out e =
     (if e = [] \<or> e = ''.'' then out
      else if e = ''..'' then
        (case out of
           [] \<Rightarrow> (if rooted then [] else [''..''])
         | e0 # below \<Rightarrow> (if e0 = ''..'' then ''..'' # out else below))
      else e # out)"

definition filepath_Clean :: "string \<Rightarrow> string" where
  "filepath_Clean path =
     (if path = [] then ''.''
      else
        (let rooted = (hd path = CHR ''/'');
             out = rev (foldl (Clean_elem rooted) [] (splitSep path))
         in if rooted then CHR ''/'' # strings_Join out ''/''
            else if out = [] then ''.''
            else strings_Join out ''/''))"

definition filepath_Join :: "string list \<Rightarrow> string" where
  "filepath_Join elem =
     (case dropWhile (\<lambda>e. e = []) elem of
        [] \<Rightarrow> []
      | e # es \<Rightarrow> filepath_Clean (strings_Join (e # es) ''/''))"

definition filepath_Dir :: "string \<Rightarrow> string" where
  "filepath_Dir path = filepath_Clean (rev (dropWhile (\<lambda>c. c \<noteq> CHR ''/'') (rev path)))"

section \<open>Output resolution\<close>

text \<open>
  The operating system is outside the program. Its answers are given by a record of
  functions over a state \<open>'w\<close> of the world: \<^verbatim>\<open>os.Getwd\<close> and \<^verbatim>\<open>os.ReadDir\<close>
  read the world, \<^verbatim>\<open>os.MkdirAll\<close> and \<^verbatim>\<open>os.OpenFile\<close> may change it. Every call
  that \<^verbatim>\<open>getOutput\<close> makes is also written to a list, in the order of the calls.
  File modes are the source's octal literals in decimal: \<^verbatim>\<open>0644\<close> is 420,
  \<^verbatim>\<open>0755\<close> is 493 and \<^verbatim>\<open>0666\<close> is 438.
\<close>

datatype open_flag = O_RDONLY | O_WRONLY | O_RDWR | O_APPEND | O_CREATE

datatype os_File = os_Stdout | os_Stderr | OpenedFile string

datatype os_call =
  Getwd
| ReadDir string
| MkdirAll string nat
| OpenFile string "open_flag set" nat

record 'w os =
  os_Getwd :: "'w \<Rightarrow> go_error + string"
  os_ReadDir :: "string \<Rightarrow> 'w \<Rightarrow> go_error option"
  os_MkdirAll :: "string \<Rightarrow> nat \<Rightarrow> 'w \<Rightarrow> go_error option \<times> 'w"
  os_OpenFile :: "string \<Rightarrow> open_flag set \<Rightarrow> nat \<Rightarrow> 'w \<Rightarrow> (go_error + os_File) \<times> 'w"

definition os_DevNull :: string where "os_DevNull = ''/dev/null''"

text \<open>
  The path that \<^verbatim>\<open>getOutput\<close> opens for an output that is not a reserved name
  (lines 172 to 176): the logs directory joined to the working directory, and the
  default file name joined to that when the test of line 174 succeeds.
\<close>

definition getOutput_path :: "string \<Rightarrow> string \<Rightarrow> string" where
  "getOutput_path rootDir logsDir =
     (let path = filepath_Join [rootDir, logsDir]
      in if \<not> strings_Contains ''.'' path then filepath_Join [path, ''app.log''] else path)"

type_synonym 'w os_result = "(go_error + os_File) \<times> os_call list \<times> 'w"

definition getOutput_open :: "'w os \<Rightarrow> string \<Rightarrow> os_call list \<Rightarrow> 'w \<Rightarrow> 'w os_result" where
  "getOutput_open os path calls w =
     (case os_OpenFile os path {O_CREATE, O_APPEND, O_RDWR} 438 w of
        (Inl err, w') \<Rightarrow> (Inl err, calls @ [OpenFile path {O_CREATE, O_APPEND, O_RDWR} 438], w')
      | (Inr f, w') \<Rightarrow> (Inr f, calls @ [OpenFile path {O_CREATE, O_APPEND, O_RDWR} 438], w'))"

definition getOutput :: "'w os \<Rightarrow> string \<Rightarrow> string \<Rightarrow> 'w \<Rightarrow> 'w os_result" where
  "getOutput os output logsDir w =
     (if output = Stdout then (Inr os_Stdout, [], w)
      else if output = Stderr then (Inr os_Stderr, [], w)
      else if output = DevNull \<or> output = [] then
        (case os_OpenFile os os_DevNull {O_WRONLY} 420 w of
           (r, w') \<Rightarrow> (r, [OpenFile os_DevNull {O_WRONLY} 420], w'))
      else
        (case os_Getwd os w of
           Inl err \<Rightarrow> (Inl err, [Getwd], w)
         | Inr rootDir \<Rightarrow>
             (let path = getOutput_path rootDir logsDir;
                  dir = filepath_Dir path
              in case os_ReadDir os dir w of
                   None \<Rightarrow> getOutput_open os path [Getwd, ReadDir dir] w
                 | Some err \<Rightarrow>
                     if os_IsNotExist err then
                       (case os_MkdirAll os dir 493 w of
                          (Some err', w') \<Rightarrow>
                            (Inl err', [Getwd, ReadDir dir, MkdirAll dir 493], w')
                        | (None, w') \<Rightarrow>
                            getOutput_open os path [Getwd, ReadDir dir, MkdirAll dir 493] w')
                     else (Inl err, [Getwd, ReadDir dir], w))))"

text \<open>
  A small file system to run \<^verbatim>\<open>getOutput\<close> on: a working directory, the directories
  and the files that exist. Reading a missing directory answers a not-exist error,
  \<^verbatim>\<open>MkdirAll\<close> adds the directory, and \<^verbatim>\<open>OpenFile\<close> needs the parent directory
  and, without \<^verbatim>\<open>O_CREATE\<close>, the file.
\<close>

record fs =
  fs_wd :: string
  fs_dirs :: "string list"
  fs_files :: "string list"

definition fs_os :: "fs os" where
  "fs_os =
     \<lparr>os_Getwd = (\<lambda>w. Inr (fs_wd w)),
      os_ReadDir = (\<lambda>d w. if d \<in> set (fs_dirs w) then None
                           else Some (NotExistError ''no such file or directory'')),
      os_MkdirAll = (\<lambda>d perm w. (None, w\<lparr>fs_dirs := d # fs_dirs w\<rparr>)),
      os_OpenFile = (\<lambda>p flags perm w.
         if filepath_Dir p \<in> set (fs_dirs w) \<and> (p \<in> set (fs_files w) \<or> O_CREATE \<in> flags)
         then (Inr (OpenedFile p), w\<lparr>fs_files := p # fs_files w\<rparr>)
         else (Inl (NotExistError ''no such file or directory''), w))\<rparr>"

definition fs0 :: fs where
  "fs0 = \<lparr>fs_wd = ''/srv'', fs_dirs = [''/'', ''/srv'', ''/dev''], fs_files = [''/dev/null'']\<rparr>"

definition fs1 :: fs where
  "fs1 = fs0\<lparr>fs_dirs := ''/srv/var/log'' # fs_dirs fs0\<rparr>"

text \<open>
  The same file system mounted read-only (no directory can be created), and one whose
  directories cannot be read.
\<close>

definition readonly_os :: "fs os" where
  "readonly_os =
     fs_os\<lparr>os_MkdirAll := (\<lambda>d perm w. (Some (OtherError ''read-only file system''), w))\<rparr>"

definition unreadable_os :: "fs os" where
  "unreadable_os = fs_os\<lparr>os_ReadDir := (\<lambda>d w. Some (OtherError ''permission denied''))\<rparr>"

section \<open>Configuration\<close>

record Config =
  BufferCapacity :: int
  LoggerLevel :: string
  Output :: string
  Formatter :: string
  LogsDir :: string
  ContextExtraFields :: "string list"

definition GetBufferCapacity :: "Config \<Rightarrow> int" where
  "GetBufferCapacity c = BufferCapacity c"

definition GetLoggerLevel :: "Config \<Rightarrow> string" where
  "GetLoggerLevel c = LoggerLevel c"

definition GetLoggerOutput :: "Config \<Rightarrow> string" where
  "GetLoggerOutput c = Output c"

definition GetLoggerFormatter :: "Config \<Rightarrow> string" where
  "GetLoggerFormatter c = Formatter c"

definition GetLoggerLogsDir :: "Config \<Rightarrow> string" where
  "GetLoggerLogsDir c = LogsDir c"

definition GetLoggerContextExtraFields :: "Config \<Rightarrow> string list" where
  "GetLoggerContextExtraFields c = ContextExtraFields c"

section \<open>Channels and drain goroutines\<close>

text \<open>
  What a call does: it returns a value, it ends the process (by a panic that nothing
  recovers, or by a fatal error of the run-time system), or it blocks (it cannot
  complete in the present state).
\<close>

datatype 'a outcome = Panics | Blocks | Returns 'a

text \<open>
  A Go channel: its capacity, the buffered elements in arrival order, and whether it has
  been closed.
\<close>

record 'a chan =
  chan_cap :: nat
  chan_buf :: "'a list"
  chan_closed :: bool

text \<open>
  \<^verbatim>\<open>make(chan T, n)\<close> for a channel of pointers is the run-time system's
  \<^verbatim>\<open>makechan\<close>. The buffer takes \<open>n\<close> times the size of a pointer. The call
  panics (\<^verbatim>\<open>makechan: size out of range\<close>) when that product overflows a
  \<^verbatim>\<open>uintptr\<close>, when it exceeds \<^verbatim>\<open>maxAlloc - hchanSize\<close>, or when \<open>n\<close> is
  negative. Otherwise the channel header and, for a positive size, the buffer are
  allocated (\<open>alloc_chan\<close>); an allocation that the heap cannot serve is a fatal error. The constants
  of the run-time system depend on platform and version, and whether the heap can serve
  an allocation depends on the machine: both are given by a record, \<open>mallocgc\<close>
  answering the heap after the allocation, or \<open>None\<close>. Allocations of a fixed small
  size elsewhere in the program are taken to succeed.
\<close>

record 'h go_runtime =
  uintptr_bits :: nat
  ptrSize :: nat
  maxAlloc :: nat
  hchanSize :: nat
  mallocgc :: "nat \<Rightarrow> 'h \<Rightarrow> 'h option"
  heap :: 'h

definition alloc_chan :: "'h go_runtime \<Rightarrow> nat \<Rightarrow> 'h option" where
  "alloc_chan rt mem =
     (case mallocgc rt (hchanSize rt) (heap rt) of
        None \<Rightarrow> None
      | Some h1 \<Rightarrow> (if mem = 0 then Some h1 else mallocgc rt mem h1))"

definition make_chan :: "'h go_runtime \<Rightarrow> int \<Rightarrow> ('a chan \<times> 'h go_runtime) outcome" where
  "make_chan rt n =
     (let mem = ptrSize rt * nat n;
          overflow = (2 ^ uintptr_bits rt \<le> mem)
      in if overflow \<or> maxAlloc rt - hchanSize rt < mem \<or> n < 0 then Panics
         else
           (case alloc_chan rt mem of
              None \<Rightarrow> Panics
            | Some h \<Rightarrow>
                Returns (\<lparr>chan_cap = nat n, chan_buf = [], chan_closed = False\<rparr>,
                         rt\<lparr>heap := h\<rparr>)))"

text \<open>
  A drain goroutine (\<^verbatim>\<open>for x := range ch { ... }\<close>) waits at the receive, holds the
  record it has received until it has logged it, or has left the loop.
\<close>

datatype 'a worker = Idle | Holding 'a | Exited

fun is_Idle :: "'a worker \<Rightarrow> bool" where
  "is_Idle Idle = True"
| "is_Idle (Holding x) = False"
| "is_Idle Exited = False"

text \<open>
  A queue of the engine: the channel, the goroutine that drains it, the entries that
  goroutine has logged so far, and (for the statements only) the records whose send has
  completed so far.
\<close>

record ('a, 'v) queue =
  queue_ch :: "'a chan"
  queue_worker :: "'a worker"
  queue_logged :: "'v Entry list"
  queue_sent :: "'a list"

text \<open>
  \<^verbatim>\<open>ch <- x\<close>: a send on a closed channel panics; with room in the buffer the element
  is appended; with no room the send completes only by handing the element to a receiver
  that waits on the empty channel (the unbuffered case); otherwise the sender blocks.
\<close>

definition queue_send :: "('a, 'v) queue \<Rightarrow> 'a \<Rightarrow> ('a, 'v) queue outcome" where
  "queue_send q x =
     (if chan_closed (queue_ch q) then Panics
      else if length (chan_buf (queue_ch q)) < chan_cap (queue_ch q) then
        Returns (q\<lparr>queue_ch := (queue_ch q)\<lparr>chan_buf := chan_buf (queue_ch q) @ [x]\<rparr>,
                   queue_sent := queue_sent q @ [x]\<rparr>)
      else if length (chan_buf (queue_ch q)) = 0 \<and> is_Idle (queue_worker q) then
        Returns (q\<lparr>queue_worker := Holding x, queue_sent := queue_sent q @ [x]\<rparr>)
      else Blocks)"

text \<open>\<^verbatim>\<open>close(ch)\<close>: closing a closed channel panics.\<close>

definition queue_close :: "('a, 'v) queue \<Rightarrow> ('a, 'v) queue outcome" where
  "queue_close q =
     (if chan_closed (queue_ch q) then Panics
      else Returns (q\<lparr>queue_ch := (queue_ch q)\<lparr>chan_closed := True\<rparr>\<rparr>))"

text \<open>
  The three steps of a drain loop: receive the oldest buffered element; log the held
  record (the loop body); leave the loop once the channel is closed and empty. The loop
  body hands the record's entry to \<^verbatim>\<open>Entry.Log\<close>; \<open>queue_log\<close> also answers whether
  that call panics. Nothing in the goroutine recovers from the panic.
\<close>

definition queue_recv :: "('a, 'v) queue \<Rightarrow> ('a, 'v) queue option" where
  "queue_recv q =
     (case (queue_worker q, chan_buf (queue_ch q)) of
        (Idle, x # rest) \<Rightarrow>
          Some (q\<lparr>queue_ch := (queue_ch q)\<lparr>chan_buf := rest\<rparr>, queue_worker := Holding x\<rparr>)
      | _ \<Rightarrow> None)"

definition queue_log ::
  "('a \<Rightarrow> 'v Entry) \<Rightarrow> ('a, 'v) queue \<Rightarrow> (('a, 'v) queue \<times> bool) option" where
  "queue_log body q =
     (case queue_worker q of
        Holding x \<Rightarrow>
          Some (q\<lparr>queue_logged := queue_logged q @ [body x], queue_worker := Idle\<rparr>,
                Entry_Log_panics (body x))
      | _ \<Rightarrow> None)"

definition queue_exit :: "('a, 'v) queue \<Rightarrow> ('a, 'v) queue option" where
  "queue_exit q =
     (if is_Idle (queue_worker q) \<and> length (chan_buf (queue_ch q)) = 0
         \<and> chan_closed (queue_ch q)
      then Some (q\<lparr>queue_worker := Exited\<rparr>)
      else None)"

section \<open>The engine\<close>

text \<open>
  The struct \<^verbatim>\<open>Logrus\<close> with the settings of its \<^verbatim>\<open>logrus.Logger\<close>, and the state
  of what \<^verbatim>\<open>NewLogrus\<close> starts: the two drain goroutines (inside the queues), the
  wait group, and the shutdown action, which is at one of its three statements or has
  returned.
\<close>

datatype cancel_pc = NotCalled | MsgChClosed | Waiting | Finished

record ('v, 'o) Logrus =
  logger_Level :: logrus_Level
  logger_Formatter :: logrus_Formatter
  logger_Out :: 'o
  msgCh :: "('v MsgDto, 'v) queue"
  errCh :: "('v ErrDto, 'v) queue"
  contextExtraFields :: "string list"
  wg :: nat
  cancel :: cancel_pc
  panicked :: bool

definition new_queue :: "'a chan \<Rightarrow> ('a, 'v) queue" where
  "new_queue c = \<lparr>queue_ch = c, queue_worker = Idle, queue_logged = [], queue_sent = []\<rparr>"

text \<open>
  \<^verbatim>\<open>NewLogrus\<close> returns the engine handle and the construction error (the shutdown
  action is the field \<open>cancel\<close> of the state). A handle is a pointer, \<open>None\<close> is nil.
  The two channels are made one after the other, on the run-time system \<open>rt\<close>.
\<close>

definition NewLogrus ::
  "'h go_runtime \<Rightarrow> Config \<Rightarrow> 'o \<Rightarrow> (('v, 'o) Logrus option \<times> go_error option) outcome" where
  "NewLogrus rt cfg output =
     (case make_chan rt (GetBufferCapacity cfg) of
        Panics \<Rightarrow> Panics
      | Blocks \<Rightarrow> Blocks
      | Returns (mc, rt1) \<Rightarrow>
          (case make_chan rt1 (GetBufferCapacity cfg) of
             Panics \<Rightarrow> Panics
           | Blocks \<Rightarrow> Blocks
           | Returns (ec, rt2) \<Rightarrow>
               Returns
                 (Some \<lparr>logger_Level = getLevel (GetLoggerLevel cfg),
                        logger_Formatter = getFormat (GetLoggerFormatter cfg),
                        logger_Out = output,
                        msgCh = new_queue mc,
                        errCh = new_queue ec,
                        contextExtraFields = GetLoggerContextExtraFields cfg,
                        wg = 2,
                        cancel = NotCalled,
                        panicked = False\<rparr>,
                  None)))"

subsection \<open>Producer operations\<close>

text \<open>
  Each operation builds its record and sends it on its channel. \<open>site\<close> is the call
  site that the record's constructor captures.
\<close>

definition send_msgCh :: "('v, 'o) Logrus \<Rightarrow> 'v MsgDto \<Rightarrow> ('v, 'o) Logrus outcome" where
  "send_msgCh l m =
     (case queue_send (msgCh l) m of
        Panics \<Rightarrow> Panics
      | Blocks \<Rightarrow> Blocks
      | Returns q \<Rightarrow> Returns (l\<lparr>msgCh := q\<rparr>))"

definition send_errCh :: "('v, 'o) Logrus \<Rightarrow> 'v ErrDto \<Rightarrow> ('v, 'o) Logrus outcome" where
  "send_errCh l e =
     (case queue_send (errCh l) e of
        Panics \<Rightarrow> Panics
      | Blocks \<Rightarrow> Blocks
      | Returns q \<Rightarrow> Returns (l\<lparr>errCh := q\<rparr>))"

definition then_return :: "'s outcome \<Rightarrow> 'r \<Rightarrow> ('s \<times> 'r) outcome" where
  "then_return sent r =
     (case sent of Panics \<Rightarrow> Panics | Blocks \<Rightarrow> Blocks | Returns s \<Rightarrow> Returns (s, r))"

definition DebugMsg ::
  "('v, 'o) Logrus \<Rightarrow> 'v Fields \<Rightarrow> 'v Context \<Rightarrow> string \<Rightarrow> 'v Fields \<Rightarrow> ('v, 'o) Logrus outcome" where
  "DebugMsg l site ctx msg flds = send_msgCh l (NewMsg site ctx DebugLvl msg flds)"

definition InfoMsg ::
  "('v, 'o) Logrus \<Rightarrow> 'v Fields \<Rightarrow> 'v Context \<Rightarrow> string \<Rightarrow> 'v Fields \<Rightarrow> ('v, 'o) Logrus outcome" where
  "InfoMsg l site ctx msg flds = send_msgCh l (NewMsg site ctx InfoLvl msg flds)"

definition WarningMsg ::
  "('v, 'o) Logrus \<Rightarrow> 'v Fields \<Rightarrow> 'v Context \<Rightarrow> string \<Rightarrow> 'v Fields \<Rightarrow> ('v, 'o) Logrus outcome" where
  "WarningMsg l site ctx msg flds = send_msgCh l (NewMsg site ctx WarningLvl msg flds)"

definition ErrorMsg ::
  "('v, 'o) Logrus \<Rightarrow> 'v Fields \<Rightarrow> 'v Context \<Rightarrow> string \<Rightarrow> 'v Fields \<Rightarrow> ('v, 'o) Logrus outcome" where
  "ErrorMsg l site ctx msg flds = send_msgCh l (NewMsg site ctx ErrorLvl msg flds)"

definition FatalMsg ::
  "('v, 'o) Logrus \<Rightarrow> 'v Fields \<Rightarrow> 'v Context \<Rightarrow> string \<Rightarrow> 'v Fields \<Rightarrow> ('v, 'o) Logrus outcome" where
  "FatalMsg l site ctx msg flds = send_msgCh l (NewMsg site ctx FatalLvl msg flds)"

definition PanicMsg ::
  "('v, 'o) Logrus \<Rightarrow> 'v Fields \<Rightarrow> 'v Context \<Rightarrow> string \<Rightarrow> 'v Fields \<Rightarrow> ('v, 'o) Logrus outcome" where
  "PanicMsg l site ctx msg flds = send_msgCh l (NewMsg site ctx PanicLvl msg flds)"

definition LogMsg ::
  "('v, 'o) Logrus \<Rightarrow> 'v Fields \<Rightarrow> 'v Context \<Rightarrow> string \<Rightarrow> string \<Rightarrow> 'v Fields
     \<Rightarrow> ('v, 'o) Logrus outcome" where
  "LogMsg l site ctx msg level flds = send_msgCh l (NewMsg site ctx level msg flds)"

definition Debug ::
  "('v, 'o) Logrus \<Rightarrow> 'v Fields \<Rightarrow> 'v Context \<Rightarrow> go_error \<Rightarrow> 'v Fields
     \<Rightarrow> (('v, 'o) Logrus \<times> go_error) outcome" where
  "Debug l site ctx err flds = then_return (send_errCh l (NewErr site ctx DebugLvl err flds)) err"

definition Info ::
  "('v, 'o) Logrus \<Rightarrow> 'v Fields \<Rightarrow> 'v Context \<Rightarrow> go_error \<Rightarrow> 'v Fields
     \<Rightarrow> (('v, 'o) Logrus \<times> go_error) outcome" where
  "Info l site ctx err flds = then_return (send_errCh l (NewErr site ctx InfoLvl err flds)) err"

definition Warning ::
  "('v, 'o) Logrus \<Rightarrow> 'v Fields \<Rightarrow> 'v Context \<Rightarrow> go_error \<Rightarrow> 'v Fields
     \<Rightarrow> (('v, 'o) Logrus \<times> go_error) outcome" where
  "Warning l site ctx err flds =
     then_return (send_errCh l (NewErr site ctx WarningLvl err flds)) err"

definition Error ::
  "('v, 'o) Logrus \<Rightarrow> 'v Fields \<Rightarrow> 'v Context \<Rightarrow> go_error \<Rightarrow> 'v Fields
     \<Rightarrow> (('v, 'o) Logrus \<times> go_error) outcome" where
  "Error l site ctx err flds = then_return (send_errCh l (NewErr site ctx ErrorLvl err flds)) err"

definition Fatal ::
  "('v, 'o) Logrus \<Rightarrow> 'v Fields \<Rightarrow> 'v Context \<Rightarrow> go_error \<Rightarrow> 'v Fields
     \<Rightarrow> (('v, 'o) Logrus \<times> go_error) outcome" where
  "Fatal l site ctx err flds = then_return (send_errCh l (NewErr site ctx FatalLvl err flds)) err"

definition Panic ::
  "('v, 'o) Logrus \<Rightarrow> 'v Fields \<Rightarrow> 'v Context \<Rightarrow> go_error \<Rightarrow> 'v Fields
     \<Rightarrow> (('v, 'o) Logrus \<times> go_error) outcome" where
  "Panic l site ctx err flds = then_return (send_errCh l (NewErr site ctx PanicLvl err flds)) err"

text \<open>\<^verbatim>\<open>Log\<close> has no result: it only sends.\<close>

definition Log ::
  "('v, 'o) Logrus \<Rightarrow> 'v Fields \<Rightarrow> 'v Context \<Rightarrow> go_error \<Rightarrow> string \<Rightarrow> 'v Fields
     \<Rightarrow> ('v, 'o) Logrus outcome" where
  "Log l site ctx err level flds = send_errCh l (NewErr site ctx level err flds)"

subsection \<open>Runs of the engine\<close>

text \<open>
  The goroutines of a running engine take turns, in any order: channel operations are
  atomic, so a concurrent execution of the engine is one of these interleavings. An
  event is one turn: a producer's
  call reaches its send; a drain goroutine receives, logs the record it holds, or leaves
  its loop (and calls \<^verbatim>\<open>wg.Done()\<close>); the shutdown action executes its next statement
  (\<^verbatim>\<open>close(l.msgCh)\<close>, \<^verbatim>\<open>close(l.errCh)\<close>, \<^verbatim>\<open>wg.Wait()\<close>); or the shutdown
  action is invoked once more. \<open>step\<close> answers \<open>None\<close> for a turn that cannot be
  taken: the goroutine is blocked, or the process has ended in a panic. A panic in any
  goroutine ends the process: from then on no goroutine takes a turn.
\<close>

datatype msg_op =
  OpDebugMsg | OpInfoMsg | OpWarningMsg | OpErrorMsg | OpFatalMsg | OpPanicMsg
| OpLogMsg string

datatype err_op =
  OpDebug | OpInfo | OpWarning | OpError | OpFatal | OpPanic
| OpLog string

datatype 'v event =
  CallMsg msg_op "'v Fields" "'v Context" string "'v Fields"
| CallErr err_op "'v Fields" "'v Context" go_error "'v Fields"
| MsgRecv | MsgLog | MsgExit
| ErrRecv | ErrLog | ErrExit
| CancelStep
| CancelAgain

fun call_msg ::
  "msg_op \<Rightarrow> ('v, 'o) Logrus \<Rightarrow> 'v Fields \<Rightarrow> 'v Context \<Rightarrow> string \<Rightarrow> 'v Fields
     \<Rightarrow> ('v, 'o) Logrus outcome" where
  "call_msg OpDebugMsg l site ctx msg flds = DebugMsg l site ctx msg flds"
| "call_msg OpInfoMsg l site ctx msg flds = InfoMsg l site ctx msg flds"
| "call_msg OpWarningMsg l site ctx msg flds = WarningMsg l site ctx msg flds"
| "call_msg OpErrorMsg l site ctx msg flds = ErrorMsg l site ctx msg flds"
| "call_msg OpFatalMsg l site ctx msg flds = FatalMsg l site ctx msg flds"
| "call_msg OpPanicMsg l site ctx msg flds = PanicMsg l site ctx msg flds"
| "call_msg (OpLogMsg level) l site ctx msg flds = LogMsg l site ctx msg level flds"

text \<open>
  An error-form call with the value it hands back to its caller: \<open>Some\<close> of the
  returned error, or \<open>None\<close> for an operation that has no result.
\<close>

fun call_err ::
  "err_op \<Rightarrow> ('v, 'o) Logrus \<Rightarrow> 'v Fields \<Rightarrow> 'v Context \<Rightarrow> go_error \<Rightarrow> 'v Fields
     \<Rightarrow> (('v, 'o) Logrus \<times> go_error option) outcome" where
  "call_err OpDebug l site ctx err flds =
     (case Debug l site ctx err flds of
        Panics \<Rightarrow> Panics | Blocks \<Rightarrow> Blocks | Returns (l', r) \<Rightarrow> Returns (l', Some r))"
| "call_err OpInfo l site ctx err flds =
     (case Info l site ctx err flds of
        Panics \<Rightarrow> Panics | Blocks \<Rightarrow> Blocks | Returns (l', r) \<Rightarrow> Returns (l', Some r))"
| "call_err OpWarning l site ctx err flds =
     (case Warning l site ctx err flds of
        Panics \<Rightarrow> Panics | Blocks \<Rightarrow> Blocks | Returns (l', r) \<Rightarrow> Returns (l', Some r))"
| "call_err OpError l site ctx err flds =
     (case Error l site ctx err flds of
        Panics \<Rightarrow> Panics | Blocks \<Rightarrow> Blocks | Returns (l', r) \<Rightarrow> Returns (l', Some r))"
| "call_err OpFatal l site ctx err flds =
     (case Fatal l site ctx err flds of
        Panics \<Rightarrow> Panics | Blocks \<Rightarrow> Blocks | Returns (l', r) \<Rightarrow> Returns (l', Some r))"
| "call_err OpPanic l site ctx err flds =
     (case Panic l site ctx err flds of
        Panics \<Rightarrow> Panics | Blocks \<Rightarrow> Blocks | Returns (l', r) \<Rightarrow> Returns (l', Some r))"
| "call_err (OpLog level) l site ctx err flds =
     (case Log l site ctx err level flds of
        Panics \<Rightarrow> Panics | Blocks \<Rightarrow> Blocks | Returns l' \<Rightarrow> Returns (l', None))"

definition after_call :: "('v, 'o) Logrus \<Rightarrow> ('v, 'o) Logrus outcome \<Rightarrow> ('v, 'o) Logrus option" where
  "after_call l r =
     (case r of
        Panics \<Rightarrow> Some (l\<lparr>panicked := True\<rparr>)
      | Blocks \<Rightarrow> None
      | Returns l' \<Rightarrow> Some l')"

text \<open>\<^verbatim>\<open>wg.Done()\<close>: the counter goes down by one, and panics below zero.\<close>

definition wg_Done :: "('v, 'o) Logrus \<Rightarrow> ('v, 'o) Logrus" where
  "wg_Done l = (if wg l = 0 then l\<lparr>panicked := True\<rparr> else l\<lparr>wg := wg l - 1\<rparr>)"

text \<open>The shutdown action that \<^verbatim>\<open>NewLogrus\<close> returns, one statement at a time.\<close>

definition cancel_step :: "('v, 'o) Logrus \<Rightarrow> ('v, 'o) Logrus option" where
  "cancel_step l =
     (case cancel l of
        NotCalled \<Rightarrow>
          (case queue_close (msgCh l) of
             Returns q \<Rightarrow> Some (l\<lparr>msgCh := q, cancel := MsgChClosed\<rparr>)
           | _ \<Rightarrow> Some (l\<lparr>panicked := True\<rparr>))
      | MsgChClosed \<Rightarrow>
          (case queue_close (errCh l) of
             Returns q \<Rightarrow> Some (l\<lparr>errCh := q, cancel := Waiting\<rparr>)
           | _ \<Rightarrow> Some (l\<lparr>panicked := True\<rparr>))
      | Waiting \<Rightarrow> (if wg l = 0 then Some (l\<lparr>cancel := Finished\<rparr>) else None)
      | Finished \<Rightarrow> None)"

text \<open>
  A further invocation of the shutdown action starts with \<^verbatim>\<open>close(l.msgCh)\<close> on the
  channel that the first invocation has closed.
\<close>

definition cancel_again :: "('v, 'o) Logrus \<Rightarrow> ('v, 'o) Logrus option" where
  "cancel_again l =
     (if cancel l = NotCalled then None
      else (case queue_close (msgCh l) of
              Returns q \<Rightarrow> Some (l\<lparr>msgCh := q\<rparr>)
            | _ \<Rightarrow> Some (l\<lparr>panicked := True\<rparr>)))"

definition handleMessages_step ::
  "(('v MsgDto, 'v) queue \<Rightarrow> ('v MsgDto, 'v) queue option) \<Rightarrow> ('v, 'o) Logrus
     \<Rightarrow> ('v, 'o) Logrus option" where
  "handleMessages_step f l = map_option (\<lambda>q. l\<lparr>msgCh := q\<rparr>) (f (msgCh l))"

definition handleErrors_step ::
  "(('v ErrDto, 'v) queue \<Rightarrow> ('v ErrDto, 'v) queue option) \<Rightarrow> ('v, 'o) Logrus
     \<Rightarrow> ('v, 'o) Logrus option" where
  "handleErrors_step f l = map_option (\<lambda>q. l\<lparr>errCh := q\<rparr>) (f (errCh l))"

definition handleMessages_log :: "('v, 'o) Logrus \<Rightarrow> ('v, 'o) Logrus option" where
  "handleMessages_log l =
     (case queue_log (handleMessages_body (contextExtraFields l)) (msgCh l) of
        None \<Rightarrow> None
      | Some (q, panics) \<Rightarrow>
          Some (if panics then l\<lparr>msgCh := q, panicked := True\<rparr> else l\<lparr>msgCh := q\<rparr>))"

definition handleErrors_log :: "('v, 'o) Logrus \<Rightarrow> ('v, 'o) Logrus option" where
  "handleErrors_log l =
     (case queue_log (handleErrors_body (contextExtraFields l)) (errCh l) of
        None \<Rightarrow> None
      | Some (q, panics) \<Rightarrow>
          Some (if panics then l\<lparr>errCh := q, panicked := True\<rparr> else l\<lparr>errCh := q\<rparr>))"

fun enabled_step :: "('v, 'o) Logrus \<Rightarrow> 'v event \<Rightarrow> ('v, 'o) Logrus option" where
  "enabled_step l (CallMsg op site ctx msg flds) =
     after_call l (call_msg op l site ctx msg flds)"
| "enabled_step l (CallErr op site ctx err flds) =
     after_call l
       (case call_err op l site ctx err flds of
          Panics \<Rightarrow> Panics | Blocks \<Rightarrow> Blocks | Returns (l', r) \<Rightarrow> Returns l')"
| "enabled_step l MsgRecv = handleMessages_step queue_recv l"
| "enabled_step l MsgLog = handleMessages_log l"
| "enabled_step l MsgExit = map_option wg_Done (handleMessages_step queue_exit l)"
| "enabled_step l ErrRecv = handleErrors_step queue_recv l"
| "enabled_step l ErrLog = handleErrors_log l"
| "enabled_step l ErrExit = map_option wg_Done (handleErrors_step queue_exit l)"
| "enabled_step l CancelStep = cancel_step l"
| "enabled_step l CancelAgain = cancel_again l"

definition step :: "('v, 'o) Logrus \<Rightarrow> 'v event \<Rightarrow> ('v, 'o) Logrus option" where
  "step l ev = (if panicked l then None else enabled_step l ev)"

fun run :: "('v, 'o) Logrus \<Rightarrow> 'v event list \<Rightarrow> ('v, 'o) Logrus option" where
  "run l [] = Some l"
| "run l (ev # evs) = (case step l ev of None \<Rightarrow> None | Some l' \<Rightarrow> run l' evs)"

text \<open>
  The records of the producer calls of a run, in the order of the run: these are the
  enqueue operations, in the order in which they were performed.
\<close>

fun level_of_msg_op :: "msg_op \<Rightarrow> string" where
  "level_of_msg_op OpDebugMsg = DebugLvl"
| "level_of_msg_op OpInfoMsg = InfoLvl"
| "level_of_msg_op OpWarningMsg = WarningLvl"
| "level_of_msg_op OpErrorMsg = ErrorLvl"
| "level_of_msg_op OpFatalMsg = FatalLvl"
| "level_of_msg_op OpPanicMsg = PanicLvl"
| "level_of_msg_op (OpLogMsg level) = level"

fun level_of_err_op :: "err_op \<Rightarrow> string" where
  "level_of_err_op OpDebug = DebugLvl"
| "level_of_err_op OpInfo = InfoLvl"
| "level_of_err_op OpWarning = WarningLvl"
| "level_of_err_op OpError = ErrorLvl"
| "level_of_err_op OpFatal = FatalLvl"
| "level_of_err_op OpPanic = PanicLvl"
| "level_of_err_op (OpLog level) = level"

fun enqueued_msgs :: "'v event list \<Rightarrow> 'v MsgDto list" where
  "enqueued_msgs [] = []"
| "enqueued_msgs (CallMsg op site ctx msg flds # evs) =
     NewMsg site ctx (level_of_msg_op op) msg flds # enqueued_msgs evs"
| "enqueued_msgs (ev # evs) = enqueued_msgs evs"

fun enqueued_errs :: "'v event list \<Rightarrow> 'v ErrDto list" where
  "enqueued_errs [] = []"
| "enqueued_errs (CallErr op site ctx err flds # evs) =
     NewErr site ctx (level_of_err_op op) err flds # enqueued_errs evs"
| "enqueued_errs (ev # evs) = enqueued_errs evs"

section \<open>Invariants of a running engine\<close>

text \<open>
  The records a drain goroutine still has to log are the one it holds, if any, and then
  the buffered ones. A goroutine counts in the wait group until it has left its loop.
\<close>

fun held :: "'a worker \<Rightarrow> 'a list" where
  "held Idle = []"
| "held (Holding x) = [x]"
| "held Exited = []"

fun alive :: "'a worker \<Rightarrow> nat" where
  "alive Exited = 0"
| "alive w = 1"

definition queue_inv :: "('a \<Rightarrow> 'v Entry) \<Rightarrow> ('a, 'v) queue \<Rightarrow> bool" where
  "queue_inv body q =
     (map body (queue_sent q) =
        queue_logged q @ map body (held (queue_worker q) @ chan_buf (queue_ch q))
      \<and> length (chan_buf (queue_ch q)) \<le> chan_cap (queue_ch q)
      \<and> (queue_worker q = Exited \<longrightarrow> chan_buf (queue_ch q) = [] \<and> chan_closed (queue_ch q)))"

definition engine_inv :: "('v, 'o) Logrus \<Rightarrow> bool" where
  "engine_inv l =
     (queue_inv (handleMessages_body (contextExtraFields l)) (msgCh l)
      \<and> queue_inv (handleErrors_body (contextExtraFields l)) (errCh l)
      \<and> wg l = alive (queue_worker (msgCh l)) + alive (queue_worker (errCh l))
      \<and> (cancel l \<noteq> NotCalled \<longrightarrow> chan_closed (queue_ch (msgCh l)))
      \<and> (cancel l = Waiting \<or> cancel l = Finished \<longrightarrow> chan_closed (queue_ch (errCh l)))
      \<and> (cancel l = Finished \<longrightarrow>
            queue_worker (msgCh l) = Exited \<and> queue_worker (errCh l) = Exited)
      \<and> (cancel l = NotCalled \<longrightarrow> \<not> chan_closed (queue_ch (msgCh l)))
      \<and> (cancel l = NotCalled \<or> cancel l = MsgChClosed \<longrightarrow>
            \<not> chan_closed (queue_ch (errCh l))))"

definition same_setup :: "('v, 'o) Logrus \<Rightarrow> ('v, 'o) Logrus \<Rightarrow> bool" where
  "same_setup l l' =
     (contextExtraFields l' = contextExtraFields l
      \<and> chan_cap (queue_ch (msgCh l')) = chan_cap (queue_ch (msgCh l))
      \<and> chan_cap (queue_ch (errCh l')) = chan_cap (queue_ch (errCh l)))"

definition step_frame :: "('v, 'o) Logrus \<Rightarrow> 'v event \<Rightarrow> ('v, 'o) Logrus \<Rightarrow> bool" where
  "step_frame l ev l' =
     (same_setup l l'
      \<and> (panicked l' \<or>
           queue_sent (msgCh l') = queue_sent (msgCh l) @ enqueued_msgs [ev]
           \<and> queue_sent (errCh l') = queue_sent (errCh l) @ enqueued_errs [ev]))"

text \<open>The value a call hands back, when it returns.\<close>

fun returned_value :: "('s \<times> 'r) outcome \<Rightarrow> 'r option" where
  "returned_value (Returns (s, r)) = Some r"
| "returned_value Panics = None"
| "returned_value Blocks = None"

section \<open>What the claims speak of\<close>








text \<open>
  The pairs of a field map that \<^verbatim>\<open>WithFields\<close> accepts, and whether a map has a func
  under a key.
\<close>

definition accepted :: "'v Fields \<Rightarrow> 'v Fields" where
  "accepted fs = (\<lambda>k. case fs k of None \<Rightarrow> None | Some v \<Rightarrow> (if is_func v then None else Some v))"

definition func_at :: "'v Fields \<Rightarrow> string \<Rightarrow> bool" where
  "func_at fs k = (case fs k of None \<Rightarrow> False | Some v \<Rightarrow> is_func v)"


section \<open>A sample engine and sample runs\<close>

text \<open>
  A configuration with buffer capacity 2, run-time systems to build it on (the constants
  are those of a 64-bit Linux; the heap is a count of free bytes), the engine that
  \<^verbatim>\<open>NewLogrus\<close> builds, and runs of that engine.
\<close>

definition linux_amd64 :: "nat go_runtime" where
  "linux_amd64 =
     \<lparr>uintptr_bits = 64, ptrSize = 8, maxAlloc = 2 ^ 48, hchanSize = 96,
      mallocgc = (\<lambda>n free. if n \<le> free then Some (free - n) else None),
      heap = 2 ^ 30\<rparr>"


definition cfg0 :: Config where
  "cfg0 = \<lparr>BufferCapacity = 2, LoggerLevel = ''debug'', Output = ''stdout'',
            Formatter = ''json'', LogsDir = ''var/log'', ContextExtraFields = [''request_id'']\<rparr>"



definition ctx0 :: "string Context" where
  "ctx0 = (\<lambda>k. if k = ''request_id'' then Val ''r-1'' else Nil)"

definition site0 :: "string Fields" where
  "site0 = [''file'' \<mapsto> Val ''main.go'']"

definition engine0 :: "(string, os_File) Logrus" where
  "engine0 =
     \<lparr>logger_Level = DebugLevel, logger_Formatter = JSONFormatter, logger_Out = os_Stdout,
      msgCh = new_queue \<lparr>chan_cap = 2, chan_buf = [], chan_closed = False\<rparr>,
      errCh = new_queue \<lparr>chan_cap = 2, chan_buf = [], chan_closed = False\<rparr>,
      contextExtraFields = [''request_id''], wg = 2, cancel = NotCalled, panicked = False\<rparr>"

definition engine_closed :: "(string, os_File) Logrus" where
  "engine_closed =
     engine0\<lparr>errCh := (errCh engine0)\<lparr>queue_ch := (queue_ch (errCh engine0))\<lparr>chan_closed := True\<rparr>\<rparr>\<rparr>"

text \<open>
  Three messages and one error are enqueued, the shutdown action is started while
  records are still buffered, and both drain loops finish.
\<close>

definition events0 :: "string event list" where
  "events0 =
     [CallMsg OpInfoMsg site0 ctx0 ''one'' Map.empty,
      CallMsg OpInfoMsg site0 ctx0 ''two'' Map.empty,
      MsgRecv,
      CallMsg OpInfoMsg site0 ctx0 ''three'' Map.empty,
      CallErr OpError site0 ctx0 (OtherError ''boom'') Map.empty,
      CancelStep, MsgLog, CancelStep, MsgRecv, ErrRecv, MsgLog, ErrLog, ErrExit,
      MsgRecv, MsgLog, MsgExit, CancelStep]"

definition events_err_full :: "string event list" where
  "events_err_full =
     [CallErr OpWarning site0 ctx0 (OtherError ''first'') Map.empty,
      CallErr (OpLog ''info'') site0 ctx0 (OtherError ''second'') Map.empty]"




text \<open>
  A record whose three field sources all have the key \<open>x\<close>, one without call-site
  \<open>x\<close>, and one whose context value and call-site value under \<open>x\<close> are funcs.
\<close>

definition msg_x :: "string MsgDto" where
  "msg_x = NewMsg [''x'' \<mapsto> Val ''c''] (\<lambda>k. if k = ''x'' then Val ''b'' else Nil) InfoLvl ''hello''
             [''x'' \<mapsto> Val ''a'', ''y'' \<mapsto> Val ''explicit'']"

definition err_x :: "string ErrDto" where
  "err_x = NewErr [''line'' \<mapsto> Val ''7''] (\<lambda>k. if k = ''x'' then Val ''b'' else Nil) ErrorLvl
             (OtherError ''boom'') [''x'' \<mapsto> Val ''a'']"

definition msg_func :: "string MsgDto" where
  "msg_func = NewMsg [''line'' \<mapsto> Val ''7'']
                (\<lambda>k. if k = ''x'' then FuncVal ''handler'' else Nil) InfoLvl ''hello''
                [''x'' \<mapsto> Val ''a'', ''z'' \<mapsto> FuncVal ''callback'']"

section \<open>Properties of context extraction and field merge\<close>

lemmas enum_defs =
  DebugLvl_def InfoLvl_def WarningLvl_def ErrorLvl_def FatalLvl_def PanicLvl_def
  Stdout_def Stderr_def DevNull_def TextFormat_def

lemma fieldsFromContext_loop_lookup:
  "fieldsFromContext_loop keys ctx flds k =
     (if k \<in> set keys \<and> ctx k \<noteq> Nil then Some (ctx k) else flds k)"
  by (induction keys arbitrary: flds) auto

text \<open>
  C6: the context-extracted field map holds exactly the configured keys whose context
  value is not nil, each under the same key with that value; a key outside the
  configured list and a configured key the context does not hold have no entry.
\<close>

theorem fieldsFromContext_exact:
  "fieldsFromContext keys ctx k =
     (if k \<in> set keys \<and> ctx k \<noteq> Nil then Some (ctx k) else None)"
  by (simp add: fieldsFromContext_def fieldsFromContext_loop_lookup)

text \<open>
  An instance of C6: of the configured keys \<open>request_id\<close> and \<open>trace_id\<close> the sample
  context holds only the first; \<open>user\<close> is not configured.
\<close>

theorem fieldsFromContext_exact_witness:
  "fieldsFromContext [''request_id'', ''trace_id''] ctx0 ''request_id'' = Some (Val ''r-1'')
   \<and> fieldsFromContext [''request_id'', ''trace_id''] ctx0 ''trace_id'' = None
   \<and> fieldsFromContext [''request_id'', ''trace_id''] ctx0 ''user'' = None"
  using fieldsFromContext_exact [of "[''request_id'', ''trace_id'']" ctx0 "''request_id''"]
    fieldsFromContext_exact [of "[''request_id'', ''trace_id'']" ctx0 "''trace_id''"]
    fieldsFromContext_exact [of "[''request_id'', ''trace_id'']" ctx0 "''user''"]
  by (simp add: ctx0_def)

lemma WithFields_accepted:
  "WithFields data fs k = (case accepted fs k of Some v \<Rightarrow> Some v | None \<Rightarrow> data k)"
  by (simp add: WithFields_def accepted_def split: option.splits)

lemma accepted_no_func: "\<not> func_at fs k \<Longrightarrow> accepted fs k = fs k"
  by (auto simp: accepted_def func_at_def split: option.splits)

text \<open>
  C3, as the code has it: for a record drained from either queue, the data of the logged
  entry merge the three sources with call-site fields over context-extracted fields over
  the caller's explicit fields, among the fields that \<^verbatim>\<open>WithFields\<close> accepts: a key
  takes its value from the highest source that has it with a value that is not a func
  (or a pointer to a func). So for a key under which no source has a func, the value of
  the highest source that has the key wins, and a caller's field named like a call-site
  key ends up with the call-site value.
\<close>

theorem merged_fields_precedence_among_accepted:
  "entry_data (handleMessages_body keys msg) k =
     (case accepted (CallerFields msg) k of
        Some v \<Rightarrow> Some v
      | None \<Rightarrow>
          (case accepted (fieldsFromContext keys (Ctx msg)) k of
             Some v \<Rightarrow> Some v
           | None \<Rightarrow> accepted (Fields msg) k))
   \<and> entry_data (handleErrors_body keys err) k =
     (case accepted (ECallerFields err) k of
        Some v \<Rightarrow> Some v
      | None \<Rightarrow>
          (case accepted (fieldsFromContext keys (ECtx err)) k of
             Some v \<Rightarrow> Some v
           | None \<Rightarrow> accepted (EFields err) k))
   \<and> (\<not> func_at (CallerFields msg) k \<and> \<not> func_at (fieldsFromContext keys (Ctx msg)) k
        \<and> \<not> func_at (Fields msg) k \<longrightarrow>
        entry_data (handleMessages_body keys msg) k =
          (case CallerFields msg k of
             Some v \<Rightarrow> Some v
           | None \<Rightarrow>
               (case fieldsFromContext keys (Ctx msg) k of
                  Some v \<Rightarrow> Some v
                | None \<Rightarrow> Fields msg k)))
   \<and> (\<not> func_at (ECallerFields err) k \<and> \<not> func_at (fieldsFromContext keys (ECtx err)) k
        \<and> \<not> func_at (EFields err) k \<longrightarrow>
        entry_data (handleErrors_body keys err) k =
          (case ECallerFields err k of
             Some v \<Rightarrow> Some v
           | None \<Rightarrow>
               (case fieldsFromContext keys (ECtx err) k of
                  Some v \<Rightarrow> Some v
                | None \<Rightarrow> EFields err k)))"
proof -
  have m: "entry_data (handleMessages_body keys msg) k =
     (case accepted (CallerFields msg) k of
        Some v \<Rightarrow> Some v
      | None \<Rightarrow>
          (case accepted (fieldsFromContext keys (Ctx msg)) k of
             Some v \<Rightarrow> Some v
           | None \<Rightarrow> accepted (Fields msg) k))"
    by (simp add: handleMessages_body_def WithFields_accepted split: option.splits)
  have e: "entry_data (handleErrors_body keys err) k =
     (case accepted (ECallerFields err) k of
        Some v \<Rightarrow> Some v
      | None \<Rightarrow>
          (case accepted (fieldsFromContext keys (ECtx err)) k of
             Some v \<Rightarrow> Some v
           | None \<Rightarrow> accepted (EFields err) k))"
    by (simp add: handleErrors_body_def WithFields_accepted split: option.splits)
  have m': "entry_data (handleMessages_body keys msg) k =
          (case CallerFields msg k of
             Some v \<Rightarrow> Some v
           | None \<Rightarrow>
               (case fieldsFromContext keys (Ctx msg) k of
                  Some v \<Rightarrow> Some v
                | None \<Rightarrow> Fields msg k))"
    if "\<not> func_at (CallerFields msg) k" "\<not> func_at (fieldsFromContext keys (Ctx msg)) k"
      "\<not> func_at (Fields msg) k"
    unfolding m accepted_no_func [OF that(1)] accepted_no_func [OF that(2)]
      accepted_no_func [OF that(3)] by (rule refl)
  have e': "entry_data (handleErrors_body keys err) k =
          (case ECallerFields err k of
             Some v \<Rightarrow> Some v
           | None \<Rightarrow>
               (case fieldsFromContext keys (ECtx err) k of
                  Some v \<Rightarrow> Some v
                | None \<Rightarrow> EFields err k))"
    if "\<not> func_at (ECallerFields err) k" "\<not> func_at (fieldsFromContext keys (ECtx err)) k"
      "\<not> func_at (EFields err) k"
    unfolding e accepted_no_func [OF that(1)] accepted_no_func [OF that(2)]
      accepted_no_func [OF that(3)] by (rule refl)
  from m e m' e' show ?thesis by blast
qed

text \<open>
  Against C3 as stated: the context holds a func under the configured key \<open>x\<close> and
  the caller supplies \<open>x = a\<close>; the later source does not win, the entry keeps \<open>a\<close>.
  The caller's field \<open>z\<close>, a func, does not reach the entry at all.
\<close>

theorem func_valued_field_keeps_lower_source:
  "fieldsFromContext [''x''] (Ctx msg_func) ''x'' = Some (FuncVal ''handler'')
   \<and> Fields msg_func ''x'' = Some (Val ''a'')
   \<and> entry_data (handleMessages_body [''x''] msg_func) ''x'' = Some (Val ''a'')
   \<and> Fields msg_func ''z'' = Some (FuncVal ''callback'')
   \<and> entry_data (handleMessages_body [''x''] msg_func) ''z'' = None"
  by (simp add: msg_func_def NewMsg_def handleMessages_body_def WithFields_def
      fieldsFromContext_def)

text \<open>
  An instance of C3: the explicit field \<open>x = a\<close>, the context value \<open>x = b\<close> and the
  call-site field \<open>x = c\<close> merge to \<open>c\<close>; without a call-site \<open>x\<close> the context value
  wins; a key that only the caller supplied keeps the caller's value; a func in the
  context leaves the caller's value in place.
\<close>

theorem merged_fields_precedence_among_accepted_witness:
  "\<not> func_at (CallerFields msg_x) ''x''
   \<and> \<not> func_at (fieldsFromContext [''x''] (Ctx msg_x)) ''x''
   \<and> \<not> func_at (Fields msg_x) ''x''
   \<and> entry_data (handleMessages_body [''x''] msg_x) ''x'' = Some (Val ''c'')
   \<and> \<not> func_at (ECallerFields err_x) ''x''
   \<and> \<not> func_at (fieldsFromContext [''x''] (ECtx err_x)) ''x''
   \<and> \<not> func_at (EFields err_x) ''x''
   \<and> entry_data (handleErrors_body [''x''] err_x) ''x'' = Some (Val ''b'')
   \<and> entry_data (handleMessages_body [''x''] msg_x) ''y'' = Some (Val ''explicit'')
   \<and> func_at (fieldsFromContext [''x''] (Ctx msg_func)) ''x''
   \<and> entry_data (handleMessages_body [''x''] msg_func) ''x'' = Some (Val ''a'')"
proof -
  have nf: "\<not> func_at (CallerFields msg_x) ''x''"
    "\<not> func_at (fieldsFromContext [''x''] (Ctx msg_x)) ''x''"
    "\<not> func_at (Fields msg_x) ''x''"
    "\<not> func_at (ECallerFields err_x) ''x''"
    "\<not> func_at (fieldsFromContext [''x''] (ECtx err_x)) ''x''"
    "\<not> func_at (EFields err_x) ''x''"
    "func_at (fieldsFromContext [''x''] (Ctx msg_func)) ''x''"
    by (simp_all add: func_at_def msg_x_def err_x_def msg_func_def NewMsg_def NewErr_def
        fieldsFromContext_def)
  have v: "CallerFields msg_x ''x'' = Some (Val ''c'')" "ECallerFields err_x ''x'' = None"
    "fieldsFromContext [''x''] (ECtx err_x) ''x'' = Some (Val ''b'')"
    by (simp_all add: msg_x_def err_x_def NewMsg_def NewErr_def fieldsFromContext_def)
  from merged_fields_precedence_among_accepted [of "[''x'']" msg_x "''x''" err_x] nf
  have "entry_data (handleMessages_body [''x''] msg_x) ''x'' =
          (case CallerFields msg_x ''x'' of
             Some v \<Rightarrow> Some v
           | None \<Rightarrow>
               (case fieldsFromContext [''x''] (Ctx msg_x) ''x'' of
                  Some v \<Rightarrow> Some v
                | None \<Rightarrow> Fields msg_x ''x''))"
    "entry_data (handleErrors_body [''x''] err_x) ''x'' =
          (case ECallerFields err_x ''x'' of
             Some v \<Rightarrow> Some v
           | None \<Rightarrow>
               (case fieldsFromContext [''x''] (ECtx err_x) ''x'' of
                  Some v \<Rightarrow> Some v
                | None \<Rightarrow> EFields err_x ''x''))"
    by blast+
  with v
  have 1: "entry_data (handleMessages_body [''x''] msg_x) ''x'' = Some (Val ''c'')"
    "entry_data (handleErrors_body [''x''] err_x) ''x'' = Some (Val ''b'')"
    by simp_all
  from merged_fields_precedence_among_accepted [of "[''x'']" msg_x "''y''" err_x]
  have 2: "entry_data (handleMessages_body [''x''] msg_x) ''y'' = Some (Val ''explicit'')"
    by (simp add: msg_x_def NewMsg_def fieldsFromContext_def accepted_def)
  from merged_fields_precedence_among_accepted [of "[''x'']" msg_func "''x''" err_x]
  have 3: "entry_data (handleMessages_body [''x''] msg_func) ''x'' = Some (Val ''a'')"
    by (simp add: msg_func_def NewMsg_def fieldsFromContext_def accepted_def)
  from nf 1 2 3 show ?thesis by simp
qed

section \<open>Properties of output resolution\<close>

lemma filepath_Clean_rooted:
  "path \<noteq> [] \<Longrightarrow> hd path = CHR ''/'' \<Longrightarrow> \<exists>rest. filepath_Clean path = CHR ''/'' # rest"
  by (simp add: filepath_Clean_def Let_def)

lemma filepath_Join_rooted:
  "\<exists>rest. filepath_Join ((CHR ''/'' # r) # es) = CHR ''/'' # rest"
proof -
  have "strings_Join ((CHR ''/'' # r) # es) ''/'' \<noteq> []
          \<and> hd (strings_Join ((CHR ''/'' # r) # es) ''/'') = CHR ''/''"
    by (cases es) simp_all
  then show ?thesis
    using filepath_Clean_rooted by (simp add: filepath_Join_def)
qed

lemma Contains_dot_rooted: "\<not> strings_Contains ''.'' (CHR ''/'' # rest)"
  by (auto simp add: strings_Contains_def sublist_Cons_right prefix_Cons)

lemma getOutput_path_always_appends:
  "getOutput_path (CHR ''/'' # r) logsDir =
     filepath_Join [filepath_Join [CHR ''/'' # r, logsDir], ''app.log'']"
proof -
  obtain rest where "filepath_Join [CHR ''/'' # r, logsDir] = CHR ''/'' # rest"
    using filepath_Join_rooted by blast
  then show ?thesis
    by (simp add: getOutput_path_def Let_def Contains_dot_rooted)
qed

lemma path_my_log:
  "getOutput_path ''/srv'' ''var/log/my.log'' = ''/srv/var/log/my.log/app.log''"
  by code_simp

lemma dir_my_log: "filepath_Dir ''/srv/var/log/my.log/app.log'' = ''/srv/var/log/my.log''"
  by code_simp

lemma path_var_log: "getOutput_path ''/srv'' ''var/log'' = ''/srv/var/log/app.log''"
  by code_simp

lemma dir_var_log: "filepath_Dir ''/srv/var/log/app.log'' = ''/srv/var/log''"
  by code_simp

text \<open>
  C7: the default file name is meant to be appended only to a path without a file
  component. The test of line 174 asks whether the path occurs within the string
  \<^verbatim>\<open>"."\<close>, which no path under a rooted working directory does, so the name is
  appended to every path. With working directory \<^verbatim>\<open>/srv\<close> and logs directory
  \<^verbatim>\<open>var/log/my.log\<close> the resolved path contains a dot, and still the resolver creates
  the directory \<^verbatim>\<open>/srv/var/log/my.log\<close> and opens \<^verbatim>\<open>app.log\<close> inside it.
\<close>

theorem getOutput_appends_to_file_path:
  "strings_Contains ''/srv/var/log/my.log'' ''.''
   \<and> fst (getOutput fs_os ''file'' ''var/log/my.log'' fs0) =
       Inr (OpenedFile ''/srv/var/log/my.log/app.log'')
   \<and> fst (snd (getOutput fs_os ''file'' ''var/log/my.log'' fs0)) =
       [Getwd, ReadDir ''/srv/var/log/my.log'', MkdirAll ''/srv/var/log/my.log'' 493,
        OpenFile ''/srv/var/log/my.log/app.log'' {O_CREATE, O_APPEND, O_RDWR} 438]"
proof -
  have "strings_Contains ''/srv/var/log/my.log'' ''.''"
    by code_simp
  then show ?thesis
    by (simp add: getOutput_def getOutput_open_def fs_os_def fs0_def enum_defs
        path_my_log dir_my_log Let_def)
qed

text \<open>
  C9: \<^verbatim>\<open>stdout\<close> resolves to the standard output stream and \<^verbatim>\<open>stderr\<close> to the
  standard error stream, with no call to the operating system and no error;
  \<^verbatim>\<open>/dev/null\<close> and the empty string resolve to whatever opening the null device
  write-only gives, and that open is the only call made: no directory is read or created.
\<close>

theorem getOutput_reserved_names:
  "getOutput os ''stdout'' logsDir w = (Inr os_Stdout, [], w)
   \<and> getOutput os ''stderr'' logsDir w = (Inr os_Stderr, [], w)
   \<and> getOutput os ''/dev/null'' logsDir w =
       (fst (os_OpenFile os ''/dev/null'' {O_WRONLY} 420 w),
        [OpenFile ''/dev/null'' {O_WRONLY} 420],
        snd (os_OpenFile os ''/dev/null'' {O_WRONLY} 420 w))
   \<and> getOutput os '''' logsDir w =
       (fst (os_OpenFile os ''/dev/null'' {O_WRONLY} 420 w),
        [OpenFile ''/dev/null'' {O_WRONLY} 420],
        snd (os_OpenFile os ''/dev/null'' {O_WRONLY} 420 w))"
  by (simp add: getOutput_def enum_defs os_DevNull_def split: prod.splits)

text \<open>
  An instance of C9 on the sample file system.
\<close>

theorem getOutput_reserved_names_witness:
  "getOutput fs_os ''stdout'' ''var/log'' fs0 = (Inr os_Stdout, [], fs0)
   \<and> getOutput fs_os ''stderr'' ''var/log'' fs0 = (Inr os_Stderr, [], fs0)
   \<and> fst (getOutput fs_os ''/dev/null'' ''var/log'' fs0) = Inr (OpenedFile ''/dev/null'')
   \<and> fst (snd (getOutput fs_os [] ''var/log'' fs0)) = [OpenFile ''/dev/null'' {O_WRONLY} 420]"
proof -
  have "filepath_Dir ''/dev/null'' = ''/dev''"
    by code_simp
  then show ?thesis
    using getOutput_reserved_names [of fs_os "''var/log''" fs0]
    by (simp add: fs_os_def fs0_def)
qed

text \<open>
  C8, as the code has it: for an output name that is not reserved, the resolved path
  comes from the logs directory and the working directory, not from the output name.
  The resolver reads the directory of that path; when the directory exists it opens the
  path with create, append and read-write access (mode 0666); when reading reports that
  it does not exist, it first creates the directory with its missing ancestors (mode
  0755); an error of reading, creating or opening is returned.
\<close>

theorem getOutput_file_branch:
  assumes "output \<noteq> ''stdout''" and "output \<noteq> ''stderr''"
    and "output \<noteq> ''/dev/null''" and "output \<noteq> []"
    and "os_Getwd os w = Inr rootDir"
    and "path = getOutput_path rootDir logsDir"
    and "dir = filepath_Dir path"
  shows "(os_ReadDir os dir w = None
          \<and> os_OpenFile os path {O_CREATE, O_APPEND, O_RDWR} 438 w = (r, w') \<longrightarrow>
          getOutput os output logsDir w =
            (r, [Getwd, ReadDir dir, OpenFile path {O_CREATE, O_APPEND, O_RDWR} 438], w'))
     \<and> (os_ReadDir os dir w = Some err \<and> os_IsNotExist err
          \<and> os_MkdirAll os dir 493 w = (None, w1)
          \<and> os_OpenFile os path {O_CREATE, O_APPEND, O_RDWR} 438 w1 = (r, w') \<longrightarrow>
          getOutput os output logsDir w =
            (r, [Getwd, ReadDir dir, MkdirAll dir 493,
                 OpenFile path {O_CREATE, O_APPEND, O_RDWR} 438], w'))
     \<and> (os_ReadDir os dir w = Some err \<and> os_IsNotExist err
          \<and> os_MkdirAll os dir 493 w = (Some err', w1) \<longrightarrow>
          getOutput os output logsDir w = (Inl err', [Getwd, ReadDir dir, MkdirAll dir 493], w1))
     \<and> (os_ReadDir os dir w = Some err \<and> \<not> os_IsNotExist err \<longrightarrow>
          getOutput os output logsDir w = (Inl err, [Getwd, ReadDir dir], w))"
  using assms
  by (cases r) (simp_all add: getOutput_def getOutput_open_def enum_defs Let_def)

text \<open>
  Against C8 as stated: with output name \<^verbatim>\<open>logs/custom\<close> and logs directory
  \<^verbatim>\<open>var/log\<close> the resolver creates \<^verbatim>\<open>/srv/var/log\<close> and opens a file there;
  the directory \<^verbatim>\<open>/srv/logs/custom\<close> that the output name would give is not created.
\<close>

theorem getOutput_ignores_output_value:
  "fst (getOutput fs_os ''logs/custom'' ''var/log'' fs0) = Inr (OpenedFile ''/srv/var/log/app.log'')
   \<and> fst (snd (getOutput fs_os ''logs/custom'' ''var/log'' fs0)) =
       [Getwd, ReadDir ''/srv/var/log'', MkdirAll ''/srv/var/log'' 493,
        OpenFile ''/srv/var/log/app.log'' {O_CREATE, O_APPEND, O_RDWR} 438]
   \<and> filepath_Join [''/srv'', ''logs/custom''] = ''/srv/logs/custom''
   \<and> ''/srv/logs/custom'' \<notin> set (fs_dirs (snd (snd (getOutput fs_os ''logs/custom'' ''var/log'' fs0))))"
proof -
  have "filepath_Join [''/srv'', ''logs/custom''] = ''/srv/logs/custom''"
    by code_simp
  then show ?thesis
    by (simp add: getOutput_def getOutput_open_def fs_os_def fs0_def enum_defs
        path_var_log dir_var_log Let_def)
qed

theorem getOutput_file_branch_witness:
  "os_Getwd fs_os fs0 = Inr ''/srv''
   \<and> os_ReadDir fs_os ''/srv/var/log'' fs0 = Some (NotExistError ''no such file or directory'')
   \<and> fst (getOutput fs_os ''logs/custom'' ''var/log'' fs0) = Inr (OpenedFile ''/srv/var/log/app.log'')
   \<and> fst (snd (getOutput fs_os ''logs/custom'' ''var/log'' fs0)) =
       [Getwd, ReadDir ''/srv/var/log'', MkdirAll ''/srv/var/log'' 493,
        OpenFile ''/srv/var/log/app.log'' {O_CREATE, O_APPEND, O_RDWR} 438]
   \<and> os_ReadDir fs_os ''/srv/var/log'' fs1 = None
   \<and> fst (getOutput fs_os ''logs/custom'' ''var/log'' fs1) = Inr (OpenedFile ''/srv/var/log/app.log'')
   \<and> fst (snd (getOutput fs_os ''logs/custom'' ''var/log'' fs1)) =
       [Getwd, ReadDir ''/srv/var/log'',
        OpenFile ''/srv/var/log/app.log'' {O_CREATE, O_APPEND, O_RDWR} 438]
   \<and> getOutput readonly_os ''logs/custom'' ''var/log'' fs0 =
       (Inl (OtherError ''read-only file system''),
        [Getwd, ReadDir ''/srv/var/log'', MkdirAll ''/srv/var/log'' 493], fs0)
   \<and> getOutput unreadable_os ''logs/custom'' ''var/log'' fs0 =
       (Inl (OtherError ''permission denied''), [Getwd, ReadDir ''/srv/var/log''], fs0)"
proof -
  have ro: "os_Getwd readonly_os fs0 = Inr ''/srv''"
    "os_ReadDir readonly_os ''/srv/var/log'' fs0
       = Some (NotExistError ''no such file or directory'')"
    "os_MkdirAll readonly_os ''/srv/var/log'' 493 fs0
       = (Some (OtherError ''read-only file system''), fs0)"
    by (simp_all add: readonly_os_def fs_os_def fs0_def)
  have un: "os_Getwd unreadable_os fs0 = Inr ''/srv''"
    "os_ReadDir unreadable_os ''/srv/var/log'' fs0 = Some (OtherError ''permission denied'')"
    by (simp_all add: unreadable_os_def fs_os_def fs0_def)
  have wd: "os_Getwd fs_os fs0 = Inr ''/srv''" "os_Getwd fs_os fs1 = Inr ''/srv''"
    by (simp_all add: fs_os_def fs0_def fs1_def)
  have rd: "os_ReadDir fs_os ''/srv/var/log'' fs0 = Some (NotExistError ''no such file or directory'')"
    "os_ReadDir fs_os ''/srv/var/log'' fs1 = None"
    by (simp_all add: fs_os_def fs0_def fs1_def)
  have mk: "os_MkdirAll fs_os ''/srv/var/log'' 493 fs0 = (None, fs1)"
    by (simp add: fs_os_def fs0_def fs1_def)
  have op: "os_OpenFile fs_os ''/srv/var/log/app.log'' {O_CREATE, O_APPEND, O_RDWR} 438 fs1
        = (Inr (OpenedFile ''/srv/var/log/app.log''),
           fs1\<lparr>fs_files := ''/srv/var/log/app.log'' # fs_files fs1\<rparr>)"
    by (simp add: fs_os_def fs0_def fs1_def dir_var_log)
  have ne: "''logs/custom'' \<noteq> ''stdout''" "''logs/custom'' \<noteq> ''stderr''"
    "''logs/custom'' \<noteq> ''/dev/null''" "''logs/custom'' \<noteq> []"
    by simp_all
  note a = getOutput_file_branch [OF ne wd(1) path_var_log [symmetric] dir_var_log [symmetric],
      of "Inr (OpenedFile ''/srv/var/log/app.log'')"
         "fs1\<lparr>fs_files := ''/srv/var/log/app.log'' # fs_files fs1\<rparr>"
         "NotExistError ''no such file or directory''" fs1]
  note b = getOutput_file_branch [OF ne wd(2) path_var_log [symmetric] dir_var_log [symmetric],
      of "Inr (OpenedFile ''/srv/var/log/app.log'')"
         "fs1\<lparr>fs_files := ''/srv/var/log/app.log'' # fs_files fs1\<rparr>"]
  from a rd mk op have
    "getOutput fs_os ''logs/custom'' ''var/log'' fs0 =
       (Inr (OpenedFile ''/srv/var/log/app.log''),
        [Getwd, ReadDir ''/srv/var/log'', MkdirAll ''/srv/var/log'' 493,
         OpenFile ''/srv/var/log/app.log'' {O_CREATE, O_APPEND, O_RDWR} 438],
        fs1\<lparr>fs_files := ''/srv/var/log/app.log'' # fs_files fs1\<rparr>)"
    by simp
  moreover from b rd op have
    "getOutput fs_os ''logs/custom'' ''var/log'' fs1 =
       (Inr (OpenedFile ''/srv/var/log/app.log''),
        [Getwd, ReadDir ''/srv/var/log'',
         OpenFile ''/srv/var/log/app.log'' {O_CREATE, O_APPEND, O_RDWR} 438],
        fs1\<lparr>fs_files := ''/srv/var/log/app.log'' # fs_files fs1\<rparr>)"
    by simp
  moreover from
    getOutput_file_branch [OF ne ro(1) path_var_log [symmetric] dir_var_log [symmetric],
      where err = "NotExistError ''no such file or directory''"
        and err' = "OtherError ''read-only file system''" and ?w1.0 = fs0] ro
  have "getOutput readonly_os ''logs/custom'' ''var/log'' fs0 =
       (Inl (OtherError ''read-only file system''),
        [Getwd, ReadDir ''/srv/var/log'', MkdirAll ''/srv/var/log'' 493], fs0)"
    by simp
  moreover from
    getOutput_file_branch [OF ne un(1) path_var_log [symmetric] dir_var_log [symmetric],
      where err = "OtherError ''permission denied''"] un
  have "getOutput unreadable_os ''logs/custom'' ''var/log'' fs0 =
       (Inl (OtherError ''permission denied''), [Getwd, ReadDir ''/srv/var/log''], fs0)"
    by simp
  ultimately show ?thesis
    using wd rd by simp
qed

section \<open>Invariants of runs\<close>

lemma is_Idle_iff [simp]: "is_Idle w \<longleftrightarrow> w = Idle"
  by (cases w) simp_all

lemma alive_0 [simp]: "alive w = 0 \<longleftrightarrow> w = Exited"
  by (cases w) simp_all


lemma queue_send_inv:
  "queue_send q x = Returns q' \<Longrightarrow> queue_inv body q \<Longrightarrow>
     queue_inv body q' \<and> alive (queue_worker q') = alive (queue_worker q)
     \<and> chan_closed (queue_ch q') = chan_closed (queue_ch q)
     \<and> chan_cap (queue_ch q') = chan_cap (queue_ch q)
     \<and> queue_sent q' = queue_sent q @ [x]"
  by (auto simp: queue_send_def queue_inv_def split: if_splits)

lemma queue_recv_inv:
  "queue_recv q = Some q' \<Longrightarrow> queue_inv body q \<Longrightarrow>
     queue_inv body q' \<and> alive (queue_worker q') = alive (queue_worker q)
     \<and> chan_closed (queue_ch q') = chan_closed (queue_ch q)
     \<and> chan_cap (queue_ch q') = chan_cap (queue_ch q)
     \<and> queue_sent q' = queue_sent q"
  by (auto simp: queue_recv_def queue_inv_def split: worker.splits list.splits)

lemma queue_log_inv:
  "queue_log body q = Some (q', p) \<Longrightarrow> queue_inv body q \<Longrightarrow>
     queue_inv body q' \<and> alive (queue_worker q') = alive (queue_worker q)
     \<and> chan_closed (queue_ch q') = chan_closed (queue_ch q)
     \<and> chan_cap (queue_ch q') = chan_cap (queue_ch q)
     \<and> queue_sent q' = queue_sent q"
  by (auto simp: queue_log_def queue_inv_def split: worker.splits)

lemma queue_exit_inv:
  "queue_exit q = Some q' \<Longrightarrow> queue_inv body q \<Longrightarrow>
     queue_inv body q' \<and> queue_worker q = Idle \<and> queue_worker q' = Exited
     \<and> chan_closed (queue_ch q') = chan_closed (queue_ch q)
     \<and> chan_cap (queue_ch q') = chan_cap (queue_ch q)
     \<and> queue_sent q' = queue_sent q"
  by (auto simp: queue_exit_def queue_inv_def split: if_splits)

lemma queue_close_inv:
  "queue_close q = Returns q' \<Longrightarrow> queue_inv body q \<Longrightarrow>
     queue_inv body q' \<and> alive (queue_worker q') = alive (queue_worker q)
     \<and> chan_closed (queue_ch q')
     \<and> chan_cap (queue_ch q') = chan_cap (queue_ch q)
     \<and> queue_sent q' = queue_sent q"
  by (auto simp: queue_close_def queue_inv_def split: if_splits)

lemma panicked_inv: "engine_inv l \<Longrightarrow> engine_inv (l\<lparr>panicked := True\<rparr>)"
  by (auto simp: engine_inv_def)

lemma call_msg_send:
  "call_msg op l site ctx msg flds = send_msgCh l (NewMsg site ctx (level_of_msg_op op) msg flds)"
  by (cases op)
     (simp_all add: DebugMsg_def InfoMsg_def WarningMsg_def ErrorMsg_def FatalMsg_def
        PanicMsg_def LogMsg_def)

lemma call_err_send:
  "(case call_err op l site ctx err flds of
      Panics \<Rightarrow> Panics | Blocks \<Rightarrow> Blocks | Returns (l', r) \<Rightarrow> Returns l')
   = send_errCh l (NewErr site ctx (level_of_err_op op) err flds)"
  by (cases op)
     (simp_all add: Debug_def Info_def Warning_def Error_def Fatal_def Panic_def Log_def
        then_return_def split: outcome.splits)

lemma msg_step_inv:
  assumes "handleMessages_step f l = Some l'" and "engine_inv l"
    and "\<And>q q'. f q = Some q' \<Longrightarrow>
           queue_inv (handleMessages_body (contextExtraFields l)) q \<Longrightarrow>
           queue_inv (handleMessages_body (contextExtraFields l)) q'
           \<and> alive (queue_worker q') = alive (queue_worker q)
           \<and> chan_closed (queue_ch q') = chan_closed (queue_ch q)"
  shows "engine_inv l'"
proof -
  from assms(1) obtain q' where q: "f (msgCh l) = Some q'" and l': "l' = l\<lparr>msgCh := q'\<rparr>"
    by (auto simp: handleMessages_step_def)
  from assms(2) have "queue_inv (handleMessages_body (contextExtraFields l)) (msgCh l)"
    by (simp add: engine_inv_def)
  from assms(3) [OF q this] assms(2) show ?thesis
    unfolding l' engine_inv_def by auto
qed

lemma err_step_inv:
  assumes "handleErrors_step f l = Some l'" and "engine_inv l"
    and "\<And>q q'. f q = Some q' \<Longrightarrow>
           queue_inv (handleErrors_body (contextExtraFields l)) q \<Longrightarrow>
           queue_inv (handleErrors_body (contextExtraFields l)) q'
           \<and> alive (queue_worker q') = alive (queue_worker q)
           \<and> chan_closed (queue_ch q') = chan_closed (queue_ch q)"
  shows "engine_inv l'"
proof -
  from assms(1) obtain q' where q: "f (errCh l) = Some q'" and l': "l' = l\<lparr>errCh := q'\<rparr>"
    by (auto simp: handleErrors_step_def)
  from assms(2) have "queue_inv (handleErrors_body (contextExtraFields l)) (errCh l)"
    by (simp add: engine_inv_def)
  from assms(3) [OF q this] assms(2) show ?thesis
    unfolding l' engine_inv_def by auto
qed

lemma msg_exit_inv:
  assumes "map_option wg_Done (handleMessages_step queue_exit l) = Some l'" and "engine_inv l"
  shows "engine_inv l'"
proof -
  from assms(1) obtain q' where q: "queue_exit (msgCh l) = Some q'"
    and l': "l' = wg_Done (l\<lparr>msgCh := q'\<rparr>)"
    by (auto simp: handleMessages_step_def)
  from assms(2) have "queue_inv (handleMessages_body (contextExtraFields l)) (msgCh l)"
    by (simp add: engine_inv_def)
  from queue_exit_inv [OF q this] assms(2) show ?thesis
    unfolding l' engine_inv_def wg_Done_def by auto
qed

lemma err_exit_inv:
  assumes "map_option wg_Done (handleErrors_step queue_exit l) = Some l'" and "engine_inv l"
  shows "engine_inv l'"
proof -
  from assms(1) obtain q' where q: "queue_exit (errCh l) = Some q'"
    and l': "l' = wg_Done (l\<lparr>errCh := q'\<rparr>)"
    by (auto simp: handleErrors_step_def)
  from assms(2) have "queue_inv (handleErrors_body (contextExtraFields l)) (errCh l)"
    by (simp add: engine_inv_def)
  from queue_exit_inv [OF q this] assms(2) show ?thesis
    unfolding l' engine_inv_def wg_Done_def by auto
qed

lemma msg_log_inv:
  assumes "handleMessages_log l = Some l'" and "engine_inv l"
  shows "engine_inv l'"
proof -
  from assms(1) obtain q' p where q: "queue_log (handleMessages_body (contextExtraFields l)) (msgCh l) = Some (q', p)"
    and l': "l' = (if p then l\<lparr>msgCh := q', panicked := True\<rparr> else l\<lparr>msgCh := q'\<rparr>)"
    by (auto simp: handleMessages_log_def split: option.splits)
  from assms(2) have "queue_inv (handleMessages_body (contextExtraFields l)) (msgCh l)"
    by (simp add: engine_inv_def)
  from queue_log_inv [OF q this] assms(2) show ?thesis
    unfolding l' engine_inv_def by auto
qed

lemma err_log_inv:
  assumes "handleErrors_log l = Some l'" and "engine_inv l"
  shows "engine_inv l'"
proof -
  from assms(1) obtain q' p where q: "queue_log (handleErrors_body (contextExtraFields l)) (errCh l) = Some (q', p)"
    and l': "l' = (if p then l\<lparr>errCh := q', panicked := True\<rparr> else l\<lparr>errCh := q'\<rparr>)"
    by (auto simp: handleErrors_log_def split: option.splits)
  from assms(2) have "queue_inv (handleErrors_body (contextExtraFields l)) (errCh l)"
    by (simp add: engine_inv_def)
  from queue_log_inv [OF q this] assms(2) show ?thesis
    unfolding l' engine_inv_def by auto
qed

lemma cancel_step_inv:
  assumes "cancel_step l = Some l'" and "engine_inv l"
  shows "engine_inv l'"
proof (cases "cancel l")
  case NotCalled
  show ?thesis
  proof (cases "queue_close (msgCh l)")
    case (Returns q)
    from assms(2) have "queue_inv (handleMessages_body (contextExtraFields l)) (msgCh l)"
      by (simp add: engine_inv_def)
    from queue_close_inv [OF Returns this] assms NotCalled Returns show ?thesis
      by (auto simp: cancel_step_def engine_inv_def)
  qed (use assms NotCalled in \<open>auto simp: cancel_step_def intro: panicked_inv\<close>)
next
  case MsgChClosed
  show ?thesis
  proof (cases "queue_close (errCh l)")
    case (Returns q)
    from assms(2) have "queue_inv (handleErrors_body (contextExtraFields l)) (errCh l)"
      by (simp add: engine_inv_def)
    from queue_close_inv [OF Returns this] assms MsgChClosed Returns show ?thesis
      by (auto simp: cancel_step_def engine_inv_def)
  qed (use assms MsgChClosed in \<open>auto simp: cancel_step_def intro: panicked_inv\<close>)
next
  case Waiting
  with assms show ?thesis
    by (auto simp: cancel_step_def engine_inv_def split: if_splits)
next
  case Finished
  with assms show ?thesis
    by (simp add: cancel_step_def)
qed

lemma cancel_again_inv:
  assumes "cancel_again l = Some l'" and "engine_inv l"
  shows "engine_inv l'"
proof -
  from assms have "cancel l \<noteq> NotCalled"
    by (auto simp: cancel_again_def split: if_splits)
  with assms(2) have "chan_closed (queue_ch (msgCh l))"
    by (simp add: engine_inv_def)
  then have "queue_close (msgCh l) = Panics"
    by (simp add: queue_close_def)
  with assms(1) \<open>cancel l \<noteq> NotCalled\<close> have "l' = l\<lparr>panicked := True\<rparr>"
    by (simp add: cancel_again_def)
  with assms(2) show ?thesis
    by (simp add: panicked_inv)
qed

lemma after_send_msgCh_inv:
  assumes "after_call l (send_msgCh l m) = Some l'" and "engine_inv l"
  shows "engine_inv l'"
proof (cases "queue_send (msgCh l) m")
  case (Returns q)
  from assms(2) have "queue_inv (handleMessages_body (contextExtraFields l)) (msgCh l)"
    by (simp add: engine_inv_def)
  from queue_send_inv [OF Returns this] assms Returns show ?thesis
    by (auto simp: after_call_def send_msgCh_def engine_inv_def)
qed (use assms in \<open>auto simp: after_call_def send_msgCh_def intro: panicked_inv\<close>)

lemma after_send_errCh_inv:
  assumes "after_call l (send_errCh l m) = Some l'" and "engine_inv l"
  shows "engine_inv l'"
proof (cases "queue_send (errCh l) m")
  case (Returns q)
  from assms(2) have "queue_inv (handleErrors_body (contextExtraFields l)) (errCh l)"
    by (simp add: engine_inv_def)
  from queue_send_inv [OF Returns this] assms Returns show ?thesis
    by (auto simp: after_call_def send_errCh_def engine_inv_def)
qed (use assms in \<open>auto simp: after_call_def send_errCh_def intro: panicked_inv\<close>)

lemma enabled_step_inv:
  assumes "enabled_step l ev = Some l'" and "engine_inv l"
  shows "engine_inv l'"
proof (cases ev)
  case (CallMsg op site ctx msg flds)
  with assms show ?thesis
    by (simp add: call_msg_send after_send_msgCh_inv)
next
  case (CallErr op site ctx err flds)
  with assms show ?thesis
    by (simp add: call_err_send after_send_errCh_inv)
next
  case MsgRecv
  with assms have "handleMessages_step queue_recv l = Some l'" by simp
  from msg_step_inv [OF this assms(2)] show ?thesis
    using queue_recv_inv by blast
next
  case MsgLog
  with assms show ?thesis
    by (simp add: msg_log_inv)
next
  case MsgExit
  with assms show ?thesis
    by (simp add: msg_exit_inv)
next
  case ErrRecv
  with assms have "handleErrors_step queue_recv l = Some l'" by simp
  from err_step_inv [OF this assms(2)] show ?thesis
    using queue_recv_inv by blast
next
  case ErrLog
  with assms show ?thesis
    by (simp add: err_log_inv)
next
  case ErrExit
  with assms show ?thesis
    by (simp add: err_exit_inv)
next
  case CancelStep
  with assms show ?thesis
    by (simp add: cancel_step_inv)
next
  case CancelAgain
  with assms show ?thesis
    by (simp add: cancel_again_inv)
qed

lemma step_inv: "step l ev = Some l' \<Longrightarrow> engine_inv l \<Longrightarrow> engine_inv l'"
  by (simp add: step_def enabled_step_inv split: if_splits)

lemma run_inv: "run l evs = Some l' \<Longrightarrow> engine_inv l \<Longrightarrow> engine_inv l'"
proof (induction evs arbitrary: l)
  case Nil
  then show ?case by simp
next
  case (Cons ev evs)
  then obtain l1 where "step l ev = Some l1" and "run l1 evs = Some l'"
    by (auto split: option.splits)
  with Cons show ?case
    using step_inv by blast
qed

lemma make_chan_Returns:
  "make_chan rt n = Returns (c, rt') \<Longrightarrow>
     0 \<le> n \<and> c = \<lparr>chan_cap = nat n, chan_buf = [], chan_closed = False\<rparr>"
  by (auto simp: make_chan_def Let_def split: if_splits option.splits)

lemma NewLogrus_Returns:
  assumes "NewLogrus rt cfg output = Returns (h :: ('v, 'o) Logrus option, e)"
  shows "0 \<le> GetBufferCapacity cfg \<and> e = None
     \<and> h = Some \<lparr>logger_Level = getLevel (GetLoggerLevel cfg),
                   logger_Formatter = getFormat (GetLoggerFormatter cfg),
                   logger_Out = output,
                   msgCh = new_queue \<lparr>chan_cap = nat (GetBufferCapacity cfg), chan_buf = [],
                                        chan_closed = False\<rparr>,
                   errCh = new_queue \<lparr>chan_cap = nat (GetBufferCapacity cfg), chan_buf = [],
                                        chan_closed = False\<rparr>,
                   contextExtraFields = GetLoggerContextExtraFields cfg,
                   wg = 2, cancel = NotCalled, panicked = False\<rparr>"
proof -
  from assms obtain mc :: "'v MsgDto chan" and rt1 and ec :: "'v ErrDto chan" and rt2 where
    1: "make_chan rt (GetBufferCapacity cfg) = Returns (mc, rt1)"
    and 2: "make_chan rt1 (GetBufferCapacity cfg) = Returns (ec, rt2)"
    by (auto simp: NewLogrus_def split: outcome.splits)
  from make_chan_Returns [OF 1] make_chan_Returns [OF 2] assms 1 2 show ?thesis
    by (simp add: NewLogrus_def)
qed

lemma NewLogrus_inv: "NewLogrus rt cfg output = Returns (Some l, e) \<Longrightarrow> engine_inv l"
  by (drule NewLogrus_Returns) (auto simp: engine_inv_def queue_inv_def new_queue_def)

lemma queue_send_frame:
  "queue_send q x = Returns q' \<Longrightarrow>
     chan_cap (queue_ch q') = chan_cap (queue_ch q) \<and> queue_sent q' = queue_sent q @ [x]"
  by (auto simp: queue_send_def split: if_splits)

lemma queue_recv_frame:
  "queue_recv q = Some q' \<Longrightarrow>
     chan_cap (queue_ch q') = chan_cap (queue_ch q) \<and> queue_sent q' = queue_sent q"
  by (auto simp: queue_recv_def split: worker.splits list.splits)

lemma queue_log_frame:
  "queue_log body q = Some (q', p) \<Longrightarrow>
     chan_cap (queue_ch q') = chan_cap (queue_ch q) \<and> queue_sent q' = queue_sent q"
  by (auto simp: queue_log_def split: worker.splits)

lemma queue_exit_frame:
  "queue_exit q = Some q' \<Longrightarrow>
     chan_cap (queue_ch q') = chan_cap (queue_ch q) \<and> queue_sent q' = queue_sent q"
  by (auto simp: queue_exit_def split: if_splits)

lemma queue_close_frame:
  "queue_close q = Returns q' \<Longrightarrow>
     chan_cap (queue_ch q') = chan_cap (queue_ch q) \<and> queue_sent q' = queue_sent q"
  by (auto simp: queue_close_def split: if_splits)

lemma after_send_msgCh_frame:
  assumes "after_call l (send_msgCh l m) = Some l'"
  shows "same_setup l l' \<and> (panicked l' \<or> queue_sent (msgCh l') = queue_sent (msgCh l) @ [m]
           \<and> queue_sent (errCh l') = queue_sent (errCh l))"
proof (cases "queue_send (msgCh l) m")
  case (Returns q)
  from queue_send_frame [OF Returns] assms Returns show ?thesis
    by (auto simp: after_call_def send_msgCh_def same_setup_def)
qed (use assms in \<open>auto simp: after_call_def send_msgCh_def same_setup_def\<close>)

lemma after_send_errCh_frame:
  assumes "after_call l (send_errCh l m) = Some l'"
  shows "same_setup l l' \<and> (panicked l' \<or> queue_sent (errCh l') = queue_sent (errCh l) @ [m]
           \<and> queue_sent (msgCh l') = queue_sent (msgCh l))"
proof (cases "queue_send (errCh l) m")
  case (Returns q)
  from queue_send_frame [OF Returns] assms Returns show ?thesis
    by (auto simp: after_call_def send_errCh_def same_setup_def)
qed (use assms in \<open>auto simp: after_call_def send_errCh_def same_setup_def\<close>)

lemma msg_step_frame:
  assumes "handleMessages_step f l = Some l'"
    and "\<And>q q'. f q = Some q' \<Longrightarrow>
           chan_cap (queue_ch q') = chan_cap (queue_ch q) \<and> queue_sent q' = queue_sent q"
  shows "same_setup l l' \<and> queue_sent (msgCh l') = queue_sent (msgCh l)
           \<and> queue_sent (errCh l') = queue_sent (errCh l) \<and> wg l' = wg l
           \<and> panicked l' = panicked l"
proof -
  from assms(1) obtain q' where q: "f (msgCh l) = Some q'" and l': "l' = l\<lparr>msgCh := q'\<rparr>"
    by (auto simp: handleMessages_step_def)
  from assms(2) [OF q] show ?thesis
    unfolding l' same_setup_def by simp
qed

lemma err_step_frame:
  assumes "handleErrors_step f l = Some l'"
    and "\<And>q q'. f q = Some q' \<Longrightarrow>
           chan_cap (queue_ch q') = chan_cap (queue_ch q) \<and> queue_sent q' = queue_sent q"
  shows "same_setup l l' \<and> queue_sent (msgCh l') = queue_sent (msgCh l)
           \<and> queue_sent (errCh l') = queue_sent (errCh l) \<and> wg l' = wg l
           \<and> panicked l' = panicked l"
proof -
  from assms(1) obtain q' where q: "f (errCh l) = Some q'" and l': "l' = l\<lparr>errCh := q'\<rparr>"
    by (auto simp: handleErrors_step_def)
  from assms(2) [OF q] show ?thesis
    unfolding l' same_setup_def by simp
qed

lemma msg_log_frame:
  assumes "handleMessages_log l = Some l'"
  shows "same_setup l l' \<and> queue_sent (msgCh l') = queue_sent (msgCh l)
           \<and> queue_sent (errCh l') = queue_sent (errCh l)"
proof -
  from assms obtain q' p where q: "queue_log (handleMessages_body (contextExtraFields l)) (msgCh l) = Some (q', p)"
    and l': "l' = (if p then l\<lparr>msgCh := q', panicked := True\<rparr> else l\<lparr>msgCh := q'\<rparr>)"
    by (auto simp: handleMessages_log_def split: option.splits)
  from queue_log_frame [OF q] show ?thesis
    unfolding l' same_setup_def by simp
qed

lemma err_log_frame:
  assumes "handleErrors_log l = Some l'"
  shows "same_setup l l' \<and> queue_sent (msgCh l') = queue_sent (msgCh l)
           \<and> queue_sent (errCh l') = queue_sent (errCh l)"
proof -
  from assms obtain q' p where q: "queue_log (handleErrors_body (contextExtraFields l)) (errCh l) = Some (q', p)"
    and l': "l' = (if p then l\<lparr>errCh := q', panicked := True\<rparr> else l\<lparr>errCh := q'\<rparr>)"
    by (auto simp: handleErrors_log_def split: option.splits)
  from queue_log_frame [OF q] show ?thesis
    unfolding l' same_setup_def by simp
qed

lemma wg_Done_frame:
  "same_setup l (wg_Done l) \<and> queue_sent (msgCh (wg_Done l)) = queue_sent (msgCh l)
     \<and> queue_sent (errCh (wg_Done l)) = queue_sent (errCh l)"
  by (simp add: wg_Done_def same_setup_def)

lemma same_setup_trans: "same_setup a b \<Longrightarrow> same_setup b c \<Longrightarrow> same_setup a c"
  by (simp add: same_setup_def)

lemma cancel_step_frame:
  assumes "cancel_step l = Some l'"
  shows "same_setup l l' \<and> queue_sent (msgCh l') = queue_sent (msgCh l)
           \<and> queue_sent (errCh l') = queue_sent (errCh l)"
  using assms
  by (auto simp: cancel_step_def same_setup_def
      split: cancel_pc.splits outcome.splits if_splits dest: queue_close_frame)

lemma cancel_again_frame:
  assumes "cancel_again l = Some l'"
  shows "same_setup l l' \<and> queue_sent (msgCh l') = queue_sent (msgCh l)
           \<and> queue_sent (errCh l') = queue_sent (errCh l)"
  using assms
  by (auto simp: cancel_again_def same_setup_def
      split: outcome.splits if_splits dest: queue_close_frame)

lemma enabled_step_frame:
  assumes "enabled_step l ev = Some l'"
  shows "step_frame l ev l'"
proof (cases ev)
  case (CallMsg op site ctx msg flds)
  with assms after_send_msgCh_frame show ?thesis
    by (fastforce simp: call_msg_send step_frame_def)
next
  case (CallErr op site ctx err flds)
  with assms after_send_errCh_frame show ?thesis
    by (fastforce simp: call_err_send step_frame_def)
next
  case MsgRecv
  with assms have "handleMessages_step queue_recv l = Some l'" by simp
  from msg_step_frame [OF this] MsgRecv show ?thesis
    using queue_recv_frame by (simp add: step_frame_def) blast
next
  case MsgLog
  with assms msg_log_frame [of l l'] show ?thesis
    by (simp add: step_frame_def)
next
  case MsgExit
  with assms obtain l1 where 1: "handleMessages_step queue_exit l = Some l1"
    and l': "l' = wg_Done l1" by auto
  from msg_step_frame [OF 1] queue_exit_frame
  have "same_setup l l1 \<and> queue_sent (msgCh l1) = queue_sent (msgCh l)
           \<and> queue_sent (errCh l1) = queue_sent (errCh l)" by blast
  with wg_Done_frame [of l1] MsgExit show ?thesis
    unfolding l' step_frame_def using same_setup_trans by fastforce
next
  case ErrRecv
  with assms have "handleErrors_step queue_recv l = Some l'" by simp
  from err_step_frame [OF this] ErrRecv show ?thesis
    using queue_recv_frame by (simp add: step_frame_def) blast
next
  case ErrLog
  with assms err_log_frame [of l l'] show ?thesis
    by (simp add: step_frame_def)
next
  case ErrExit
  with assms obtain l1 where 1: "handleErrors_step queue_exit l = Some l1"
    and l': "l' = wg_Done l1" by auto
  from err_step_frame [OF 1] queue_exit_frame
  have "same_setup l l1 \<and> queue_sent (msgCh l1) = queue_sent (msgCh l)
           \<and> queue_sent (errCh l1) = queue_sent (errCh l)" by blast
  with wg_Done_frame [of l1] ErrExit show ?thesis
    unfolding l' step_frame_def using same_setup_trans by fastforce
next
  case CancelStep
  with assms cancel_step_frame [of l l'] show ?thesis
    by (simp add: step_frame_def)
next
  case CancelAgain
  with assms cancel_again_frame [of l l'] show ?thesis
    by (simp add: step_frame_def)
qed

lemma run_panicked: "run l evs = Some l' \<Longrightarrow> panicked l \<Longrightarrow> panicked l'"
  by (cases evs) (simp_all add: step_def)

lemma enqueued_msgs_Cons: "enqueued_msgs (ev # evs) = enqueued_msgs [ev] @ enqueued_msgs evs"
  by (cases ev) simp_all

lemma enqueued_errs_Cons: "enqueued_errs (ev # evs) = enqueued_errs [ev] @ enqueued_errs evs"
  by (cases ev) simp_all

lemma run_frame:
  "run l evs = Some l' \<Longrightarrow>
     same_setup l l'
     \<and> (panicked l' \<or>
          queue_sent (msgCh l') = queue_sent (msgCh l) @ enqueued_msgs evs
          \<and> queue_sent (errCh l') = queue_sent (errCh l) @ enqueued_errs evs)"
proof (induction evs arbitrary: l)
  case Nil
  then show ?case by (simp add: same_setup_def)
next
  case (Cons ev evs)
  then obtain l1 where 1: "step l ev = Some l1" and 2: "run l1 evs = Some l'"
    by (auto split: option.splits)
  from 1 have "enabled_step l ev = Some l1"
    by (simp add: step_def split: if_splits)
  then have f1: "step_frame l ev l1" by (rule enabled_step_frame)
  from Cons.IH [OF 2] have f2: "same_setup l1 l'
     \<and> (panicked l' \<or>
          queue_sent (msgCh l') = queue_sent (msgCh l1) @ enqueued_msgs evs
          \<and> queue_sent (errCh l') = queue_sent (errCh l1) @ enqueued_errs evs)" .
  show ?case
  proof (cases "panicked l1")
    case True
    with 2 have "panicked l'" using run_panicked by blast
    with f1 f2 show ?thesis
      using same_setup_trans by (auto simp: step_frame_def)
  next
    case False
    with f1 f2 show ?thesis
      using same_setup_trans enqueued_msgs_Cons [of ev evs] enqueued_errs_Cons [of ev evs]
      by (auto simp: step_frame_def)
  qed
qed

lemma NewLogrus_start:
  assumes "NewLogrus rt cfg output = Returns (Some l, e)"
  shows "contextExtraFields l = GetLoggerContextExtraFields cfg
     \<and> int (chan_cap (queue_ch (msgCh l))) = GetBufferCapacity cfg
     \<and> int (chan_cap (queue_ch (errCh l))) = GetBufferCapacity cfg
     \<and> queue_sent (msgCh l) = [] \<and> queue_sent (errCh l) = [] \<and> e = None"
  using NewLogrus_Returns [OF assms] by (auto simp: new_queue_def)























section \<open>Properties of the engine\<close>

lemma NewLogrus_cfg0: "NewLogrus linux_amd64 cfg0 os_Stdout = Returns (Some engine0, None)"
  by (simp add: NewLogrus_def make_chan_def alloc_chan_def linux_amd64_def cfg0_def engine0_def
      GetBufferCapacity_def GetLoggerLevel_def GetLoggerFormatter_def
      GetLoggerContextExtraFields_def getLevel_def getFormat_def enum_defs Let_def)

lemmas run_simps =
  step_def new_queue_def InfoMsg_def Error_def send_msgCh_def send_errCh_def then_return_def
  queue_send_def after_call_def handleMessages_step_def handleErrors_step_def queue_recv_def
  queue_log_def queue_exit_def queue_close_def cancel_step_def wg_Done_def
  handleMessages_log_def handleErrors_log_def Entry_Log_panics_def handleMessages_body_def
  handleErrors_body_def getLevel_def enum_defs NewMsg_def NewErr_def













text \<open>
  C5: in every state of a run of an engine built from a configuration, both queues
  have the configured buffer capacity and hold at most that many records, and every
  record enqueued so far has been logged, is held by the drain loop or is buffered. A
  producer call on an open queue that is full blocks (with capacity zero: unless the
  drain loop waits to receive) and leaves the state as it is; once there is room the
  call completes and its record is the last of the buffer.
\<close>

theorem queues_have_configured_capacity:
  assumes "NewLogrus rt cfg output = Returns (Some l0, e)"
    and "run l0 evs = Some l"
  shows "int (chan_cap (queue_ch (msgCh l))) = GetBufferCapacity cfg
     \<and> int (chan_cap (queue_ch (errCh l))) = GetBufferCapacity cfg
     \<and> length (chan_buf (queue_ch (msgCh l))) \<le> chan_cap (queue_ch (msgCh l))
     \<and> length (chan_buf (queue_ch (errCh l))) \<le> chan_cap (queue_ch (errCh l))
     \<and> map (handleMessages_body (contextExtraFields l)) (queue_sent (msgCh l)) =
         queue_logged (msgCh l) @
         map (handleMessages_body (contextExtraFields l))
           (held (queue_worker (msgCh l)) @ chan_buf (queue_ch (msgCh l)))
     \<and> map (handleErrors_body (contextExtraFields l)) (queue_sent (errCh l)) =
         queue_logged (errCh l) @
         map (handleErrors_body (contextExtraFields l))
           (held (queue_worker (errCh l)) @ chan_buf (queue_ch (errCh l)))
     \<and> (\<not> chan_closed (queue_ch (msgCh l))
          \<and> length (chan_buf (queue_ch (msgCh l))) = chan_cap (queue_ch (msgCh l))
          \<and> (0 < chan_cap (queue_ch (msgCh l)) \<or> queue_worker (msgCh l) \<noteq> Idle)
         \<longrightarrow> call_msg mop l site ctx msg flds = Blocks
              \<and> step l (CallMsg mop site ctx msg flds) = None)
     \<and> (\<not> chan_closed (queue_ch (errCh l))
          \<and> length (chan_buf (queue_ch (errCh l))) = chan_cap (queue_ch (errCh l))
          \<and> (0 < chan_cap (queue_ch (errCh l)) \<or> queue_worker (errCh l) \<noteq> Idle)
         \<longrightarrow> call_err eop l site ctx err flds = Blocks
              \<and> step l (CallErr eop site ctx err flds) = None)
     \<and> (\<not> chan_closed (queue_ch (msgCh l))
          \<and> length (chan_buf (queue_ch (msgCh l))) < chan_cap (queue_ch (msgCh l))
         \<longrightarrow> (\<exists>l'. call_msg mop l site ctx msg flds = Returns l'
                \<and> chan_buf (queue_ch (msgCh l')) =
                    chan_buf (queue_ch (msgCh l)) @ [NewMsg site ctx (level_of_msg_op mop) msg flds]))
     \<and> (\<not> chan_closed (queue_ch (errCh l))
          \<and> length (chan_buf (queue_ch (errCh l))) < chan_cap (queue_ch (errCh l))
         \<longrightarrow> (\<exists>l' r. call_err eop l site ctx err flds = Returns (l', r)
                \<and> chan_buf (queue_ch (errCh l')) =
                    chan_buf (queue_ch (errCh l)) @ [NewErr site ctx (level_of_err_op eop) err flds]))"
proof -
  from assms(1) have "engine_inv l0" by (rule NewLogrus_inv)
  with assms(2) have inv: "engine_inv l" by (rule run_inv)
  from NewLogrus_start [OF assms(1)] run_frame [OF assms(2)]
  have cap: "int (chan_cap (queue_ch (msgCh l))) = GetBufferCapacity cfg"
    "int (chan_cap (queue_ch (errCh l))) = GetBufferCapacity cfg"
    by (auto simp: same_setup_def)
  from inv have q: "queue_inv (handleMessages_body (contextExtraFields l)) (msgCh l)"
    "queue_inv (handleErrors_body (contextExtraFields l)) (errCh l)"
    by (simp_all add: engine_inv_def)
  have bm: "call_msg mop l site ctx msg flds = Blocks
              \<and> step l (CallMsg mop site ctx msg flds) = None"
    if "\<not> chan_closed (queue_ch (msgCh l))"
      "length (chan_buf (queue_ch (msgCh l))) = chan_cap (queue_ch (msgCh l))"
      "0 < chan_cap (queue_ch (msgCh l)) \<or> queue_worker (msgCh l) \<noteq> Idle"
    using that
    by (auto simp: call_msg_send send_msgCh_def queue_send_def step_def after_call_def)
  have be: "call_err eop l site ctx err flds = Blocks
              \<and> step l (CallErr eop site ctx err flds) = None"
    if "\<not> chan_closed (queue_ch (errCh l))"
      "length (chan_buf (queue_ch (errCh l))) = chan_cap (queue_ch (errCh l))"
      "0 < chan_cap (queue_ch (errCh l)) \<or> queue_worker (errCh l) \<noteq> Idle"
  proof -
    from that have s: "send_errCh l (NewErr site ctx (level_of_err_op eop) err flds) = Blocks"
      by (auto simp: send_errCh_def queue_send_def)
    with call_err_send [of eop l site ctx err flds] have "call_err eop l site ctx err flds = Blocks"
      by (auto split: outcome.splits)
    then show ?thesis
      by (simp add: step_def after_call_def)
  qed
  have rm: "\<exists>l'. call_msg mop l site ctx msg flds = Returns l'
                \<and> chan_buf (queue_ch (msgCh l')) =
                    chan_buf (queue_ch (msgCh l)) @ [NewMsg site ctx (level_of_msg_op mop) msg flds]"
    if "\<not> chan_closed (queue_ch (msgCh l))"
      "length (chan_buf (queue_ch (msgCh l))) < chan_cap (queue_ch (msgCh l))"
    using that by (simp add: call_msg_send send_msgCh_def queue_send_def)
  have re: "\<exists>l' r. call_err eop l site ctx err flds = Returns (l', r)
                \<and> chan_buf (queue_ch (errCh l')) =
                    chan_buf (queue_ch (errCh l)) @ [NewErr site ctx (level_of_err_op eop) err flds]"
    if "\<not> chan_closed (queue_ch (errCh l))"
      "length (chan_buf (queue_ch (errCh l))) < chan_cap (queue_ch (errCh l))"
    using that
    by (cases eop)
       (simp_all add: Debug_def Info_def Warning_def Error_def Fatal_def Panic_def Log_def
          then_return_def send_errCh_def queue_send_def)
  from cap q bm be rm re show ?thesis
    unfolding queue_inv_def by blast
qed

lemma run0_msg_full:
  "\<exists>l. run engine0 (take 4 events0) = Some l
       \<and> \<not> chan_closed (queue_ch (msgCh l))
       \<and> length (chan_buf (queue_ch (msgCh l))) = 2
       \<and> chan_cap (queue_ch (msgCh l)) = 2"
  by (simp add: events0_def engine0_def run_simps)

lemma run_err_full:
  "\<exists>l. run engine0 events_err_full = Some l
       \<and> \<not> chan_closed (queue_ch (errCh l))
       \<and> length (chan_buf (queue_ch (errCh l))) = 2
       \<and> chan_cap (queue_ch (errCh l)) = 2"
  by (simp add: events_err_full_def engine0_def run_simps Warning_def Log_def)

lemma engine0_room:
  "\<not> chan_closed (queue_ch (msgCh engine0)) \<and> \<not> chan_closed (queue_ch (errCh engine0))
   \<and> length (chan_buf (queue_ch (msgCh engine0))) < chan_cap (queue_ch (msgCh engine0))
   \<and> length (chan_buf (queue_ch (errCh engine0))) < chan_cap (queue_ch (errCh engine0))"
  by (simp add: engine0_def new_queue_def)

theorem queues_have_configured_capacity_witness:
  "NewLogrus linux_amd64 cfg0 os_Stdout = Returns (Some engine0, None)
   \<and> GetBufferCapacity cfg0 = 2
   \<and> (case run engine0 (take 4 events0) of
        None \<Rightarrow> False
      | Some l \<Rightarrow>
          chan_cap (queue_ch (msgCh l)) = 2
          \<and> length (chan_buf (queue_ch (msgCh l))) = 2
          \<and> \<not> chan_closed (queue_ch (msgCh l))
          \<and> call_msg OpInfoMsg l site0 ctx0 ''four'' Map.empty = Blocks
          \<and> step l (CallMsg OpInfoMsg site0 ctx0 ''four'' Map.empty) = None)
   \<and> (case run engine0 events_err_full of
        None \<Rightarrow> False
      | Some l \<Rightarrow>
          chan_cap (queue_ch (errCh l)) = 2
          \<and> length (chan_buf (queue_ch (errCh l))) = 2
          \<and> \<not> chan_closed (queue_ch (errCh l))
          \<and> call_err OpError l site0 ctx0 (OtherError ''third'') Map.empty = Blocks
          \<and> step l (CallErr OpError site0 ctx0 (OtherError ''third'') Map.empty) = None)
   \<and> returned_value (call_err OpError engine0 site0 ctx0 (OtherError ''boom'') Map.empty)
        = Some (Some (OtherError ''boom''))
   \<and> call_msg OpInfoMsg engine0 site0 ctx0 ''one'' Map.empty \<noteq> Blocks"
proof -
  obtain la where a: "run engine0 (take 4 events0) = Some la"
    "\<not> chan_closed (queue_ch (msgCh la))"
    "length (chan_buf (queue_ch (msgCh la))) = 2" "chan_cap (queue_ch (msgCh la)) = 2"
    using run0_msg_full by auto
  obtain lb where b: "run engine0 events_err_full = Some lb"
    "\<not> chan_closed (queue_ch (errCh lb))"
    "length (chan_buf (queue_ch (errCh lb))) = 2" "chan_cap (queue_ch (errCh lb)) = 2"
    using run_err_full by auto
  have c: "run engine0 [] = Some engine0" by simp
  have k: "GetBufferCapacity cfg0 = 2"
    by (simp add: GetBufferCapacity_def cfg0_def)
  from queues_have_configured_capacity
         [OF NewLogrus_cfg0 a(1), of OpInfoMsg site0 ctx0 "''four''" Map.empty] a
  have A: "call_msg OpInfoMsg la site0 ctx0 ''four'' Map.empty = Blocks
          \<and> step la (CallMsg OpInfoMsg site0 ctx0 ''four'' Map.empty) = None"
    by simp
  from queues_have_configured_capacity
         [OF NewLogrus_cfg0 b(1), where eop = OpError and site = site0 and ctx = ctx0
           and err = "OtherError ''third''" and flds = Map.empty] b
  have B: "call_err OpError lb site0 ctx0 (OtherError ''third'') Map.empty = Blocks
          \<and> step lb (CallErr OpError site0 ctx0 (OtherError ''third'') Map.empty) = None"
    by simp
  from queues_have_configured_capacity
         [OF NewLogrus_cfg0 c, where mop = OpInfoMsg and site = site0 and ctx = ctx0
           and msg = "''one''" and flds = Map.empty] engine0_room
  have C: "call_msg OpInfoMsg engine0 site0 ctx0 ''one'' Map.empty \<noteq> Blocks"
    by auto
  have D: "returned_value (call_err OpError engine0 site0 ctx0 (OtherError ''boom'') Map.empty)
        = Some (Some (OtherError ''boom''))"
    by (simp add: engine0_def run_simps)
  from a b k A B C D show ?thesis
    by (simp add: NewLogrus_cfg0)
qed





lemma then_return_value: "then_return s err = Returns (l', r) \<Longrightarrow> r = err"
  by (simp add: then_return_def split: outcome.splits)

lemma then_return_room:
  "\<not> chan_closed (queue_ch (errCh l)) \<Longrightarrow>
   length (chan_buf (queue_ch (errCh l))) < chan_cap (queue_ch (errCh l)) \<Longrightarrow>
   \<exists>l'. then_return (send_errCh l x) err = Returns (l', err)"
  by (simp add: then_return_def send_errCh_def queue_send_def)

lemma then_return_closed:
  "chan_closed (queue_ch (errCh l)) \<Longrightarrow> then_return (send_errCh l x) err = Panics"
  by (simp add: then_return_def send_errCh_def queue_send_def)

text \<open>
  C4, as the code has it: each of the six fixed-severity error-form operations, when
  it returns, returns the error it was given; it does return when the error queue is
  open and has room, and it panics when the queue is closed. The operation that takes
  the level by name hands no error back.
\<close>

theorem fixed_severity_error_forms_return_the_error:
  "(Debug l site ctx err flds = Returns (l', r) \<longrightarrow> r = err)
   \<and> (Info l site ctx err flds = Returns (l', r) \<longrightarrow> r = err)
   \<and> (Warning l site ctx err flds = Returns (l', r) \<longrightarrow> r = err)
   \<and> (Error l site ctx err flds = Returns (l', r) \<longrightarrow> r = err)
   \<and> (Fatal l site ctx err flds = Returns (l', r) \<longrightarrow> r = err)
   \<and> (Panic l site ctx err flds = Returns (l', r) \<longrightarrow> r = err)
   \<and> (\<not> chan_closed (queue_ch (errCh l))
        \<and> length (chan_buf (queue_ch (errCh l))) < chan_cap (queue_ch (errCh l)) \<longrightarrow>
        (\<exists>l1. Debug l site ctx err flds = Returns (l1, err))
        \<and> (\<exists>l1. Info l site ctx err flds = Returns (l1, err))
        \<and> (\<exists>l1. Warning l site ctx err flds = Returns (l1, err))
        \<and> (\<exists>l1. Error l site ctx err flds = Returns (l1, err))
        \<and> (\<exists>l1. Fatal l site ctx err flds = Returns (l1, err))
        \<and> (\<exists>l1. Panic l site ctx err flds = Returns (l1, err)))
   \<and> (chan_closed (queue_ch (errCh l)) \<longrightarrow>
        Debug l site ctx err flds = Panics \<and> Info l site ctx err flds = Panics
        \<and> Warning l site ctx err flds = Panics \<and> Error l site ctx err flds = Panics
        \<and> Fatal l site ctx err flds = Panics \<and> Panic l site ctx err flds = Panics)
   \<and> returned_value (call_err (OpLog level) l site ctx err flds) \<noteq> Some (Some err)"
proof -
  have a: "(Debug l site ctx err flds = Returns (l', r) \<longrightarrow> r = err)
   \<and> (Info l site ctx err flds = Returns (l', r) \<longrightarrow> r = err)
   \<and> (Warning l site ctx err flds = Returns (l', r) \<longrightarrow> r = err)
   \<and> (Error l site ctx err flds = Returns (l', r) \<longrightarrow> r = err)
   \<and> (Fatal l site ctx err flds = Returns (l', r) \<longrightarrow> r = err)
   \<and> (Panic l site ctx err flds = Returns (l', r) \<longrightarrow> r = err)"
    unfolding Debug_def Info_def Warning_def Error_def Fatal_def Panic_def
    by (auto dest: then_return_value)
  have b: "(\<exists>l1. Debug l site ctx err flds = Returns (l1, err))
        \<and> (\<exists>l1. Info l site ctx err flds = Returns (l1, err))
        \<and> (\<exists>l1. Warning l site ctx err flds = Returns (l1, err))
        \<and> (\<exists>l1. Error l site ctx err flds = Returns (l1, err))
        \<and> (\<exists>l1. Fatal l site ctx err flds = Returns (l1, err))
        \<and> (\<exists>l1. Panic l site ctx err flds = Returns (l1, err))"
    if "\<not> chan_closed (queue_ch (errCh l))"
      "length (chan_buf (queue_ch (errCh l))) < chan_cap (queue_ch (errCh l))"
    unfolding Debug_def Info_def Warning_def Error_def Fatal_def Panic_def
    by (simp add: then_return_room [OF that])
  have c: "Debug l site ctx err flds = Panics \<and> Info l site ctx err flds = Panics
        \<and> Warning l site ctx err flds = Panics \<and> Error l site ctx err flds = Panics
        \<and> Fatal l site ctx err flds = Panics \<and> Panic l site ctx err flds = Panics"
    if "chan_closed (queue_ch (errCh l))"
    unfolding Debug_def Info_def Warning_def Error_def Fatal_def Panic_def
    by (simp add: then_return_closed [OF that])
  have d: "returned_value (call_err (OpLog level) l site ctx err flds) \<noteq> Some (Some err)"
    by (simp split: outcome.splits)
  from a b c d show ?thesis by blast
qed

text \<open>
  Against C4 as stated: on the sample engine \<^verbatim>\<open>Log\<close> completes and returns no value,
  where \<^verbatim>\<open>Error\<close> with the same arguments returns the error.
\<close>

theorem Log_returns_no_error:
  "returned_value (call_err (OpLog ''error'') engine0 site0 ctx0 (OtherError ''boom'') Map.empty)
     = Some None
   \<and> returned_value (call_err OpError engine0 site0 ctx0 (OtherError ''boom'') Map.empty)
     = Some (Some (OtherError ''boom''))"
  by (simp add: engine0_def run_simps Log_def)

theorem fixed_severity_error_forms_return_the_error_witness:
  "\<not> chan_closed (queue_ch (errCh engine0))
   \<and> length (chan_buf (queue_ch (errCh engine0))) < chan_cap (queue_ch (errCh engine0))
   \<and> returned_value (Debug engine0 site0 ctx0 (OtherError ''boom'') Map.empty)
        = Some (OtherError ''boom'')
   \<and> returned_value (Panic engine0 site0 ctx0 (OtherError ''boom'') Map.empty)
        = Some (OtherError ''boom'')
   \<and> chan_closed (queue_ch (errCh engine_closed))
   \<and> Error engine_closed site0 ctx0 (OtherError ''boom'') Map.empty = Panics"
proof -
  have room: "\<not> chan_closed (queue_ch (errCh engine0))"
    "length (chan_buf (queue_ch (errCh engine0))) < chan_cap (queue_ch (errCh engine0))"
    by (simp_all add: engine0_def new_queue_def)
  have closed: "chan_closed (queue_ch (errCh engine_closed))"
    by (simp add: engine_closed_def)
  from fixed_severity_error_forms_return_the_error
         [of engine0 site0 ctx0 "OtherError ''boom''" Map.empty] room
  have "\<exists>l1. Debug engine0 site0 ctx0 (OtherError ''boom'') Map.empty
               = Returns (l1, OtherError ''boom'')"
    "\<exists>l1. Panic engine0 site0 ctx0 (OtherError ''boom'') Map.empty
               = Returns (l1, OtherError ''boom'')"
    by blast+
  then have "returned_value (Debug engine0 site0 ctx0 (OtherError ''boom'') Map.empty)
        = Some (OtherError ''boom'')"
    "returned_value (Panic engine0 site0 ctx0 (OtherError ''boom'') Map.empty)
        = Some (OtherError ''boom'')"
    by auto
  moreover
  from fixed_severity_error_forms_return_the_error
         [of engine_closed site0 ctx0 "OtherError ''boom''" Map.empty] closed
  have "Error engine_closed site0 ctx0 (OtherError ''boom'') Map.empty = Panics"
    by blast
  ultimately show ?thesis
    using room closed by simp
qed

end
